theory Spec2Isabelle
  imports Complex_Main
begin

section \<open>JavaScript strings\<close>

text \<open>
  A JavaScript string is a sequence of UTF-16 code units. The model writes it as a HOL
  \<open>string\<close>, one \<open>char\<close> per code unit, which covers the code units below 256;
  \<open>length\<close> is the JavaScript \<open>.length\<close>.
\<close>

definition isDigit :: "char \<Rightarrow> bool" where
  \<comment> \<open>the regular-expression class \<open>\d\<close>\<close>
  "isDigit c = (48 \<le> (of_char c :: nat) \<and> (of_char c :: nat) \<le> 57)"

definition digitVal :: "char \<Rightarrow> nat" where
  "digitVal c = (of_char c :: nat) - 48"

definition digitChar :: "nat \<Rightarrow> char" where
  "digitChar d = char_of (48 + d)"

definition isSpace :: "char \<Rightarrow> bool" where
  \<comment> \<open>white space and line terminators below 256: TAB, LF, VT, FF, CR, SP, NBSP;
      the complement of the class \<open>\S\<close>, and what \<open>trim\<close> and \<open>parseInt\<close> strip\<close>
  "isSpace c = ((of_char c :: nat) \<in> {9, 10, 11, 12, 13, 32, 160})"

definition isUserNameChar :: "char \<Rightarrow> bool" where
  \<comment> \<open>the class \<open>[a-z0-9_]\<close>\<close>
  "isUserNameChar c =
     ((97 \<le> (of_char c :: nat) \<and> (of_char c :: nat) \<le> 122) \<or> isDigit c \<or> c = CHR ''_'')"

fun startsWith :: "string \<Rightarrow> string \<Rightarrow> bool" where
  "startsWith s [] = True"
| "startsWith [] (p # ps) = False"
| "startsWith (x # xs) (p # ps) = (x = p \<and> startsWith xs ps)"

fun str_includes :: "string \<Rightarrow> string \<Rightarrow> bool" where
  \<comment> \<open>\<open>s.includes(pat)\<close>: \<open>pat\<close> occurs somewhere in \<open>s\<close>\<close>
  "str_includes [] pat = (pat = [])"
| "str_includes (x # xs) pat = (startsWith (x # xs) pat \<or> str_includes xs pat)"

fun str_split :: "char \<Rightarrow> string \<Rightarrow> string list" where
  \<comment> \<open>\<open>s.split(c)\<close> for a one-character separator; \<open>"".split(c)\<close> is \<open>[""]\<close>\<close>
  "str_split c [] = [[]]"
| "str_split c (x # xs) =
     (if x = c then [] # str_split c xs
      else (case str_split c xs of [] \<Rightarrow> [[x]] | y # ys \<Rightarrow> (x # y) # ys))"

fun str_join :: "char \<Rightarrow> string list \<Rightarrow> string" where
  \<comment> \<open>\<open>parts.join(c)\<close>\<close>
  "str_join c [] = []"
| "str_join c [x] = x"
| "str_join c (x # y # ys) = x @ c # str_join c (y # ys)"

definition slice_from :: "nat \<Rightarrow> 'a list \<Rightarrow> 'a list" where
  \<comment> \<open>\<open>xs.slice(n)\<close> for \<open>n \<ge> 0\<close>\<close>
  "slice_from n xs = drop n xs"

definition at_index :: "'a list \<Rightarrow> nat \<Rightarrow> 'a option" where
  \<comment> \<open>\<open>xs[i]\<close>: \<open>None\<close> stands for \<open>undefined\<close>\<close>
  "at_index xs i = (if i < length xs then Some (xs ! i) else None)"

definition str_trim :: "string \<Rightarrow> string" where
  "str_trim s = rev (dropWhile isSpace (rev (dropWhile isSpace s)))"

definition digitsVal :: "string \<Rightarrow> nat" where
  "digitsVal ds = foldl (\<lambda>acc c. 10 * acc + digitVal c) 0 ds"

fun showNat :: "nat \<Rightarrow> string" where
  \<comment> \<open>Number-to-string on a non-negative integer (plain decimal below \<open>10^21\<close>)\<close>
  "showNat n = (if n < 10 then [digitChar n] else showNat (n div 10) @ [digitChar (n mod 10)])"

declare showNat.simps [simp del]

definition parseInt :: "string option \<Rightarrow> int option" where
  \<comment> \<open>\<open>parseInt(s, 10)\<close>: leading white space, an optional sign, then the longest run of
      digits; \<open>None\<close> stands for \<open>NaN\<close>. \<open>parseInt(undefined, 10)\<close> is \<open>NaN\<close>.\<close>
  "parseInt so =
     (case so of
        None \<Rightarrow> None
      | Some s \<Rightarrow>
          (let t = dropWhile isSpace s;
               neg = (t \<noteq> [] \<and> hd t = CHR ''-'');
               u = (if t \<noteq> [] \<and> (hd t = CHR ''-'' \<or> hd t = CHR ''+'') then tl t else t);
               ds = takeWhile isDigit u
           in if ds = [] then None
              else Some (if neg then - int (digitsVal ds) else int (digitsVal ds))))"

definition parseFloat :: "string \<Rightarrow> rat option" where
  \<comment> \<open>\<open>parseFloat(s)\<close> on a string of digits with at most one dot (the only strings that
      reach it, behind the test of \<open>^\d*\.?\d*$\<close>): the decimal value, \<open>None\<close> for \<open>NaN\<close>.
      The value is kept exact; rounding to a double is monotone and keeps 0 and 9999 fixed,
      so the comparisons with 0 and 9999 made on it are those of the source.\<close>
  "parseFloat s =
     (let ip = takeWhile isDigit s;
          r = dropWhile isDigit s;
          fp = (case r of [] \<Rightarrow> [] | c # r' \<Rightarrow> if c = CHR ''.'' then takeWhile isDigit r' else [])
      in if ip = [] \<and> fp = [] then None
         else Some (of_nat (digitsVal ip) + of_nat (digitsVal fp) / of_nat (10 ^ length fp)))"

definition numKey :: "int option \<Rightarrow> string" where
  \<comment> \<open>the property key of a number used as an index: \<open>obj[idx]\<close>\<close>
  "numKey i =
     (case i of
        None \<Rightarrow> ''NaN''
      | Some n \<Rightarrow> if n < 0 then CHR ''-'' # showNat (nat (- n)) else showNat (nat n))"

subsection \<open>The regular expressions of the validation rules\<close>

definition matchesDecimal :: "string \<Rightarrow> bool" where
  \<comment> \<open>\<open>/^\d*\.?\d*$/.test(s)\<close>\<close>
  "matchesDecimal s =
     (case dropWhile isDigit s of
        [] \<Rightarrow> True
      | c # r \<Rightarrow> c = CHR ''.'' \<and> (\<forall>d \<in> set r. isDigit d))"

definition matchesUserName :: "string \<Rightarrow> bool" where
  \<comment> \<open>\<open>/^[a-z0-9_]+$/.test(s)\<close>\<close>
  "matchesUserName s = (s \<noteq> [] \<and> (\<forall>c \<in> set s. isUserNameChar c))"

fun dotThenNonSpace :: "string \<Rightarrow> bool" where
  \<comment> \<open>the rest of \<open>\S+\.\S+\<close> once one non-space character has been read\<close>
  "dotThenNonSpace (c # d # r) =
     (if isSpace c then False
      else ((c = CHR ''.'' \<and> \<not> isSpace d) \<or> dotThenNonSpace (d # r)))"
| "dotThenNonSpace [c] = False"
| "dotThenNonSpace [] = False"

definition afterAt :: "string \<Rightarrow> bool" where
  \<comment> \<open>\<open>\S+\.\S+\<close> matches a prefix of the string\<close>
  "afterAt r = (case r of [] \<Rightarrow> False | c # r' \<Rightarrow> \<not> isSpace c \<and> dotThenNonSpace r')"

fun matchesEmail :: "string \<Rightarrow> bool" where
  \<comment> \<open>\<open>/\S+@\S+\.\S+/.test(s)\<close>: the pattern matches somewhere in the string\<close>
  "matchesEmail (a # b # r) =
     ((\<not> isSpace a \<and> b = CHR ''@'' \<and> afterAt r) \<or> matchesEmail (b # r))"
| "matchesEmail [a] = False"
| "matchesEmail [] = False"

section \<open>JavaScript values\<close>

text \<open>
  The entity is a \<open>Record<string, any>\<close>. Its values are modelled by \<open>jsval\<close>: an object
  or an array is the list of its own properties, with a flag that says whether it is an
  array (an array element is the property whose key is the index). The list keeps the
  properties in the order they were added, where JavaScript enumerates index keys first;
  no statement below depends on that order. Values are trees: no object is reached by
  two paths. Numbers are the integer-valued ones. Property names are taken not to
  collide with the members every object inherits (\<open>constructor\<close>, \<open>toString\<close>, ...), and
  the \<open>length\<close> of an array is not a property of the model.
\<close>

datatype jsval =
    JUndefined
  | JNull
  | JBool bool
  | JNum int
  | JStr string
  | JObj bool "(string \<times> jsval) list"

type_synonym props = "(string \<times> jsval) list"

datatype error = TypeError

fun truthy :: "jsval \<Rightarrow> bool" where
  "truthy JUndefined = False"
| "truthy JNull = False"
| "truthy (JBool b) = b"
| "truthy (JNum n) = (n \<noteq> 0)"
| "truthy (JStr s) = (s \<noteq> [])"
| "truthy (JObj a ps) = True"

fun isObject :: "jsval \<Rightarrow> bool" where
  \<comment> \<open>\<open>typeof v === 'object'\<close>\<close>
  "isObject (JObj a ps) = True"
| "isObject JNull = True"
| "isObject _ = False"

definition lookup :: "props \<Rightarrow> string \<Rightarrow> jsval" where
  \<comment> \<open>\<open>obj[k]\<close> on an object: an absent property reads as \<open>undefined\<close>\<close>
  "lookup ps k = (case map_of ps k of None \<Rightarrow> JUndefined | Some v \<Rightarrow> v)"

fun assign :: "props \<Rightarrow> string \<Rightarrow> jsval \<Rightarrow> props" where
  \<comment> \<open>\<open>obj[k] = v\<close> on an object: an existing property keeps its place\<close>
  "assign [] k v = [(k, v)]"
| "assign (p # ps) k v = (if fst p = k then (k, v) # ps else p # assign ps k v)"

definition hasKey :: "props \<Rightarrow> string \<Rightarrow> bool" where
  \<comment> \<open>\<open>k in obj\<close>\<close>
  "hasKey ps k = (map_of ps k \<noteq> None)"

definition isIndexKey :: "string \<Rightarrow> bool" where
  \<comment> \<open>the key is the canonical decimal form of an array index\<close>
  "isIndexKey k = (k \<noteq> [] \<and> (\<forall>c \<in> set k. isDigit c) \<and> (k = ''0'' \<or> hd k \<noteq> CHR ''0''))"

definition getProp :: "jsval \<Rightarrow> string \<Rightarrow> error + jsval" where
  \<comment> \<open>\<open>v[k]\<close>: reading a property of \<open>undefined\<close> or \<open>null\<close> throws; a string has its
      characters and its length; the other primitives have no property of their own\<close>
  "getProp v k =
     (case v of
        JUndefined \<Rightarrow> Inl TypeError
      | JNull \<Rightarrow> Inl TypeError
      | JObj a ps \<Rightarrow> Inr (lookup ps k)
      | JStr s \<Rightarrow>
          Inr (if isIndexKey k \<and> digitsVal k < length s then JStr [s ! digitsVal k]
               else if k = ''length'' then JNum (int (length s))
               else JUndefined)
      | _ \<Rightarrow> Inr JUndefined)"

definition setProp :: "jsval \<Rightarrow> string \<Rightarrow> jsval \<Rightarrow> error + jsval" where
  \<comment> \<open>\<open>v[k] = x\<close> in strict mode (the file is an ES module): assigning to a property of
      anything but an object or an array throws\<close>
  "setProp v k x = (case v of JObj a ps \<Rightarrow> Inr (JObj a (assign ps k x)) | _ \<Rightarrow> Inl TypeError)"

definition arrayElems :: "props \<Rightarrow> jsval list" where
  \<comment> \<open>the elements an array's \<open>filter\<close> visits: the properties at index keys\<close>
  "arrayElems ps = map snd (filter (\<lambda>kv. isIndexKey (fst kv)) ps)"

section \<open>Field descriptors\<close>

datatype EditEntryType =
    Text | TextList | DoubleTextList | TextArea | File | Address | Photo | ProfilePhoto
  | FilePhoto | Radio | Checkbox | Article | Date | Select | Showcase | PillList

datatype ValidationType =
    Email | PhoneNumber | UserName | CheckboxChecked | RequiredField
  | TextLengthBelow30 | TextLengthBelow50 | TextLengthBelow100
  | TextLengthBelow200 | TextLengthBelow300 | TextLengthBelow400
  | Number | Price

text \<open>
  \<open>extraParam\<close> is \<open>unknown\<close> in the source; the form reads two members of it, a boolean
  and a number, and the model gives it that shape (an absent member is \<open>None\<close>).
\<close>

record ExtraParam =
  isInstagramShowcase :: "bool option"
  maxPhotos :: "int option"

record EditEntry =
  attribute :: string
  attributeName :: string
  type :: EditEntryType
  isRequired :: bool
  validations :: "ValidationType list option"
  extraParam :: "ExtraParam option"
  condition :: "bool option"
  subName :: "string option"
  characterCount :: "nat option"
  info :: "string option"
  options :: "string list option"
  button :: "string option"
  subTitle :: "string option"

section \<open>The validation rules\<close>

text \<open>
  Every \<open>toast\<close> call of the source is one \<open>message\<close>; the constructor stands for the text
  and carries the values spliced into it.
\<close>

datatype message =
    EmailInvalid string            \<comment> \<open>Error for "name": Email format is invalid.\<close>
  | PhoneInvalid string            \<comment> \<open>Error for "name": Phone number format is invalid.\<close>
  | UserNameInvalid                \<comment> \<open>Invalid User name\<close>
  | UserNameChars                  \<comment> \<open>User name can only contain "a~z", number and "_".\<close>
  | CheckTheBox string             \<comment> \<open>Error for "name": Please check the box.\<close>
  | IsRequired string              \<comment> \<open>name is required!\<close>
  | TooLong string nat             \<comment> \<open>Error for "name": Needs to be shorter than N characters\<close>
  | PriceInvalid string            \<comment> \<open>name is invalid. Please enter a valid number with only digits or a decimal.\<close>
  | PriceRange string              \<comment> \<open>Error for "name": Please enter a number between 0-9999\<close>
  | NumberInvalid string           \<comment> \<open>name is invalid. Please enter a valid number\<close>
  | NumberRange string             \<comment> \<open>Error for "name": Please enter a number between 0-999\<close>
  | FieldRequired string           \<comment> \<open>Field is required: "name"\<close>
  | ArticleIncomplete string       \<comment> \<open>Title, Content, and Photo are required for name.\<close>
  | TooManyPhotos string int       \<comment> \<open>Please make sure the name section has no more than N photos.\<close>
  | ShowcaseIncomplete bool string \<comment> \<open>Title[, Handle, Profile URL, Profile Photo,] and Images are required for name.\<close>
  | SubmitSuccess                  \<comment> \<open>Successfully submitted!\<close>

definition textLengthBelow :: "nat \<Rightarrow> jsval \<Rightarrow> string \<Rightarrow> bool \<times> message list" where
  \<comment> \<open>the body shared by the six \<open>TextLengthBelowN\<close> cases\<close>
  "textLengthBelow n v name =
     (if \<not> truthy v then (True, [])
      else (case v of
              JStr s \<Rightarrow> if length s > n then (False, [TooLong name n]) else (True, [])
            | _ \<Rightarrow> (True, [])))"

definition validatePrice :: "string \<Rightarrow> string \<Rightarrow> bool \<times> message list" where
  "validatePrice s name =
     (if length s > 100 \<or> \<not> matchesDecimal s then (False, [PriceInvalid name])
      else if (case at_index (str_split CHR ''.'' s) 1 of
                 None \<Rightarrow> False
               | Some part \<Rightarrow> part \<noteq> [] \<and> length part > 2)
      then (False, [PriceInvalid name])
      else (case parseFloat s of
              None \<Rightarrow> (True, [])
            | Some price \<Rightarrow>
                if price \<le> 0 \<or> price > 9999 then (False, [PriceRange name])
                else (True, [])))"

definition validateNumber :: "string \<Rightarrow> string \<Rightarrow> bool \<times> message list" where
  "validateNumber s name =
     (if length s > 10 \<or> \<not> matchesDecimal s then (False, [NumberInvalid name])
      else (case parseInt (Some s) of
              None \<Rightarrow> (True, [])
            | Some number \<Rightarrow>
                if number \<le> 0 \<or> number > 999 then (False, [NumberRange name])
                else (True, [])))"

fun validateValue :: "jsval \<Rightarrow> string \<Rightarrow> ValidationType \<Rightarrow> bool \<times> message list" where
  \<comment> \<open>the returned boolean, and the messages sent to \<open>toast.error\<close> on the way\<close>
  "validateValue v name Email =
     (case v of
        JStr s \<Rightarrow>
          if length s > 100 \<or> \<not> matchesEmail s then (False, [EmailInvalid name])
          else (True, [])
      | _ \<Rightarrow> (True, []))"
| "validateValue v name PhoneNumber =
     (case v of
        JStr s \<Rightarrow>
          if s \<noteq> [] then
            (let digits = filter isDigit s
             in if digits = [] \<or> \<not> (length digits = 10 \<or> length digits = 11)
                then (False, [PhoneInvalid name])
                else (True, []))
          else (True, [])
      | _ \<Rightarrow> (True, []))"
| "validateValue v name UserName =
     (case v of
        JStr s \<Rightarrow> if \<not> matchesUserName s then (False, [UserNameChars]) else (True, [])
      | _ \<Rightarrow> (False, [UserNameInvalid]))"
| "validateValue v name CheckboxChecked =
     (if \<not> truthy v then (False, [CheckTheBox name]) else (True, []))"
| "validateValue v name RequiredField =
     (if \<not> truthy v \<or> (case v of JStr s \<Rightarrow> str_trim s = [] | _ \<Rightarrow> False)
      then (False, [IsRequired name]) else (True, []))"
| "validateValue v name TextLengthBelow30 = textLengthBelow 30 v name"
| "validateValue v name TextLengthBelow50 = textLengthBelow 50 v name"
| "validateValue v name TextLengthBelow100 = textLengthBelow 100 v name"
| "validateValue v name TextLengthBelow200 = textLengthBelow 200 v name"
| "validateValue v name TextLengthBelow300 = textLengthBelow 300 v name"
| "validateValue v name TextLengthBelow400 = textLengthBelow 400 v name"
| "validateValue v name Price =
     (case v of
        JStr s \<Rightarrow> if s \<noteq> [] then validatePrice s name else (True, [])
      | _ \<Rightarrow> (True, []))"
| "validateValue v name Number =
     (case v of
        JStr s \<Rightarrow> if s \<noteq> [] then validateNumber s name else (True, [])
      | _ \<Rightarrow> (True, []))"

section \<open>The field-name codec\<close>

text \<open>
  The names the form gives its controls: the attribute itself, the attribute and a
  sub-field, a \<open>TextList\<close> row, and the two halves of a \<open>DoubleTextList\<close> row (the
  source writes the literal suffixes \<open>_0\<close> and \<open>_1\<close>).
\<close>

datatype pairPos = Pos0 | Pos1

fun posKey :: "pairPos \<Rightarrow> string" where
  "posKey Pos0 = ''0''"
| "posKey Pos1 = ''1''"

datatype path =
    Whole string
  | Sub string string
  | ListSingle string nat
  | ListPaired string nat pairPos

fun encodeName :: "path \<Rightarrow> string" where
  "encodeName (Whole a) = a"
| "encodeName (Sub a sub) = a @ ''_'' @ sub"
| "encodeName (ListSingle a i) = a @ ''_listfieldsingleidx_'' @ showNat i"
| "encodeName (ListPaired a i p) = a @ ''_listfieldidx_'' @ showNat i @ ''_'' @ posKey p"

text \<open>
  What \<open>handleSubmit\<close> reads out of a control's name before it writes: the place in the
  entity the value goes to. The index is what \<open>parseInt\<close> returned (\<open>None\<close> is \<open>NaN\<close>).
\<close>

datatype target =
    TAttr string
  | TSub string string
  | TListSingle string "int option"
  | TListPaired string "int option" string

definition decodeSubField :: "string \<Rightarrow> string \<Rightarrow> target" where
  \<comment> \<open>the three branches on the text after the first underscore\<close>
  "decodeSubField entity_field entity_sub_field =
     (if str_includes entity_sub_field ''listfieldidx_'' then
        TListPaired entity_field
          (parseInt (at_index (str_split CHR ''_'' entity_sub_field) 1))
          (str_join CHR ''_'' (slice_from 2 (str_split CHR ''_'' entity_sub_field)))
      else if str_includes entity_sub_field ''listfieldsingleidx_'' then
        TListSingle entity_field (parseInt (at_index (str_split CHR ''_'' entity_sub_field) 1))
      else TSub entity_field entity_sub_field)"

definition decodeName :: "string list \<Rightarrow> string \<Rightarrow> target option" where
  \<comment> \<open>\<open>updateTargets\<close> is the set of the declared attributes; \<open>None\<close>: the name is ignored\<close>
  "decodeName updateTargets name =
     (if name \<in> set updateTargets then Some (TAttr name)
      else if str_includes name ''_'' then
        (case str_split CHR ''_'' name of
           [] \<Rightarrow> None
         | entity_field # rest \<Rightarrow>
             if entity_field \<in> set updateTargets then
               Some (decodeSubField entity_field
                       (str_join CHR ''_'' (slice_from 1 (str_split CHR ''_'' name))))
             else None)
      else None)"

fun pathTarget :: "path \<Rightarrow> target" where
  \<comment> \<open>the place a path names\<close>
  "pathTarget (Whole a) = TAttr a"
| "pathTarget (Sub a sub) = TSub a sub"
| "pathTarget (ListSingle a i) = TListSingle a (Some (int i))"
| "pathTarget (ListPaired a i p) = TListPaired a (Some (int i)) (posKey p)"

section \<open>The list-size tracker\<close>

definition isListType :: "EditEntryType \<Rightarrow> bool" where
  "isListType t = (t = TextList \<or> t = DoubleTextList)"

fun keysCount :: "jsval \<Rightarrow> nat" where
  \<comment> \<open>\<open>Object.keys(v).length\<close> on a truthy value\<close>
  "keysCount (JObj a ps) = length ps"
| "keysCount (JStr s) = length s"
| "keysCount _ = 0"

definition initialListFieldSize :: "EditEntry list \<Rightarrow> props \<Rightarrow> nat list" where
  "initialListFieldSize editEntries entityObj =
     map (\<lambda>entry.
            if isListType (type entry) then
              (if hasKey entityObj (attribute entry) \<and> truthy (lookup entityObj (attribute entry))
               then keysCount (lookup entityObj (attribute entry)) else 0)
            else 0) editEntries"

definition growList :: "nat list \<Rightarrow> nat \<Rightarrow> nat list option" where
  \<comment> \<open>the Add button of the list field at position \<open>index\<close>; the button belongs to a
      rendered list field, so the position is within range (\<open>None\<close>: outside the model)\<close>
  "growList listFieldSize index =
     (if index < length listFieldSize
      then Some (listFieldSize[index := min 10 (listFieldSize ! index + 1)]) else None)"

definition shrinkList :: "nat list \<Rightarrow> nat \<Rightarrow> nat list option" where
  \<comment> \<open>the Remove button of the list field at position \<open>index\<close>\<close>
  "shrinkList listFieldSize index =
     (if index < length listFieldSize
      then Some (listFieldSize[index := max 1 (listFieldSize ! index - 1)]) else None)"

definition editEntryIdx :: "EditEntry list \<Rightarrow> string \<Rightarrow> nat option" where
  \<comment> \<open>\<open>Object.fromEntries\<close> of the pairs (attribute, position): the last position wins\<close>
  "editEntryIdx editEntries a =
     map_of (rev (zip (map attribute editEntries) [0..<length editEntries])) a"

definition sizeAt :: "nat list \<Rightarrow> nat option \<Rightarrow> nat option" where
  \<comment> \<open>\<open>listFieldSize[i]\<close>, \<open>undefined\<close> out of range or at an undefined position\<close>
  "sizeAt listFieldSize i = (case i of None \<Rightarrow> None | Some j \<Rightarrow> at_index listFieldSize j)"

definition idxAtLeast :: "int option \<Rightarrow> nat option \<Rightarrow> bool" where
  \<comment> \<open>\<open>idx >= max\<close>: false as soon as one side is \<open>NaN\<close> or \<open>undefined\<close>\<close>
  "idxAtLeast idx mx =
     (case idx of None \<Rightarrow> False
      | Some i \<Rightarrow> (case mx of None \<Rightarrow> False | Some m \<Rightarrow> i \<ge> int m))"

section \<open>Submission\<close>

text \<open>
  A form control as \<open>handleSubmit\<close> reads it: its \<open>name\<close>, its \<open>value\<close>, whether it is an
  \<open>input\<close> of type \<open>radio\<close>, and its \<open>checked\<close> flag.
\<close>

record control =
  targetName :: string
  targetValue :: string
  isRadio :: bool
  checked :: bool

definition mkArray :: "jsval list \<Rightarrow> jsval" where
  \<comment> \<open>an array literal with these elements\<close>
  "mkArray xs = JObj True (zip (map showNat [0..<length xs]) xs)"

definition subFieldValue :: "string \<Rightarrow> string \<Rightarrow> jsval" where
  \<comment> \<open>the value stored for a sub-field: text with a line break, and any non-empty
      \<open>content\<close>, is split into its non-empty lines\<close>
  "subFieldValue entity_sub_field v =
     (if str_includes v [CHR 0x0A] \<or> (entity_sub_field = ''content'' \<and> v \<noteq> [])
      then mkArray (map JStr (filter (\<lambda>e. e \<noteq> []) (str_split (CHR 0x0A) v)))
      else JStr v)"

definition ensure :: "props \<Rightarrow> string \<Rightarrow> jsval \<Rightarrow> props" where
  \<comment> \<open>\<open>if (!entity[f]) entity[f] = fresh\<close>\<close>
  "ensure entity f fresh = (if \<not> truthy (lookup entity f) then assign entity f fresh else entity)"

definition writeNested :: "props \<Rightarrow> string \<Rightarrow> string \<Rightarrow> jsval \<Rightarrow> error + props" where
  \<comment> \<open>\<open>entity[f][k] = x\<close>\<close>
  "writeNested entity f k x =
     (case setProp (lookup entity f) k x of
        Inl e \<Rightarrow> Inl e
      | Inr container \<Rightarrow> Inr (assign entity f container))"

definition ensureRow :: "props \<Rightarrow> string \<Rightarrow> string \<Rightarrow> error + props" where
  \<comment> \<open>\<open>if (!entity[f][k]) entity[f][k] = {}\<close>\<close>
  "ensureRow entity f k =
     (case getProp (lookup entity f) k of
        Inl e \<Rightarrow> Inl e
      | Inr row \<Rightarrow> if \<not> truthy row then writeNested entity f k (JObj False []) else Inr entity)"

definition writeTarget ::
  "EditEntry list \<Rightarrow> nat list \<Rightarrow> props \<Rightarrow> target \<Rightarrow> string \<Rightarrow> error + props" where
  \<comment> \<open>the writing half of the loop over the form controls\<close>
  "writeTarget editEntries listFieldSize entity tg v =
     (case tg of
        TAttr a \<Rightarrow> Inr (assign entity a (JStr v))
      | TListPaired entity_field entity_curr_idx entity_sub_sub_field \<Rightarrow>
          (let max_idx_to_take = sizeAt listFieldSize (editEntryIdx editEntries entity_field)
           in if idxAtLeast entity_curr_idx max_idx_to_take then Inr entity
              else (case ensureRow (ensure entity entity_field (JObj True []))
                           entity_field (numKey entity_curr_idx) of
                      Inl e \<Rightarrow> Inl e
                    | Inr ent \<Rightarrow>
                        (case getProp (lookup ent entity_field) (numKey entity_curr_idx) of
                           Inl e \<Rightarrow> Inl e
                         | Inr row \<Rightarrow>
                             (case setProp row entity_sub_sub_field (JStr v) of
                                Inl e \<Rightarrow> Inl e
                              | Inr row' \<Rightarrow>
                                  writeNested ent entity_field (numKey entity_curr_idx) row'))))
      | TListSingle entity_field entity_curr_idx \<Rightarrow>
          (let max_idx_to_take =
                 (case sizeAt listFieldSize (editEntryIdx editEntries entity_field) of
                    None \<Rightarrow> 0 | Some n \<Rightarrow> n)
           in if idxAtLeast entity_curr_idx (Some max_idx_to_take) then Inr entity
              else (case ensureRow (ensure entity entity_field (JObj True []))
                           entity_field (numKey entity_curr_idx) of
                      Inl e \<Rightarrow> Inl e
                    | Inr ent \<Rightarrow> writeNested ent entity_field (numKey entity_curr_idx) (JStr v)))
      | TSub entity_field entity_sub_field \<Rightarrow>
          writeNested (ensure entity entity_field (JObj False [])) entity_field entity_sub_field
            (subFieldValue entity_sub_field v))"

definition applyControl ::
  "EditEntry list \<Rightarrow> nat list \<Rightarrow> props \<Rightarrow> control \<Rightarrow> error + props" where
  \<comment> \<open>one round of the loop over \<open>formElements\<close>\<close>
  "applyControl editEntries listFieldSize entity t =
     (if targetName t = [] then Inr entity
      else (case decodeName (map attribute editEntries) (targetName t) of
              None \<Rightarrow> Inr entity
            | Some (TAttr a) \<Rightarrow>
                if isRadio t \<and> \<not> checked t then Inr entity
                else writeTarget editEntries listFieldSize entity (TAttr a) (targetValue t)
            | Some tg \<Rightarrow> writeTarget editEntries listFieldSize entity tg (targetValue t)))"

fun applyControls ::
  "EditEntry list \<Rightarrow> nat list \<Rightarrow> props \<Rightarrow> control list \<Rightarrow> error + props" where
  "applyControls editEntries listFieldSize entity [] = Inr entity"
| "applyControls editEntries listFieldSize entity (t # ts) =
     (case applyControl editEntries listFieldSize entity t of
        Inl e \<Rightarrow> Inl e
      | Inr ent \<Rightarrow> applyControls editEntries listFieldSize ent ts)"

definition applyUpload :: "EditEntry list \<Rightarrow> props \<Rightarrow> string \<times> string \<Rightarrow> error + props" where
  \<comment> \<open>one round of the loop over the entries of \<open>uploadPhotoMap\<close>\<close>
  "applyUpload editEntries entity up =
     (let target_name = fst up; target_value = snd up;
          updateTargets = map attribute editEntries
      in if target_name \<in> set updateTargets then Inr (assign entity target_name (JStr target_value))
         else if str_includes target_name ''_'' then
           (case str_split CHR ''_'' target_name of
              [] \<Rightarrow> Inr entity
            | entity_field # rest \<Rightarrow>
                if entity_field \<in> set updateTargets then
                  writeNested (ensure entity entity_field (JObj False [])) entity_field
                    (str_join CHR ''_'' (slice_from 1 (str_split CHR ''_'' target_name)))
                    (JStr target_value)
                else Inr entity)
         else Inr entity)"

fun applyUploads :: "EditEntry list \<Rightarrow> props \<Rightarrow> (string \<times> string) list \<Rightarrow> error + props" where
  "applyUploads editEntries entity [] = Inr entity"
| "applyUploads editEntries entity (up # ups) =
     (case applyUpload editEntries entity up of
        Inl e \<Rightarrow> Inl e
      | Inr ent \<Rightarrow> applyUploads editEntries ent ups)"

subsection \<open>The loop over the descriptors\<close>

datatype flow = Continue | Return | Throw

fun validateAll :: "jsval \<Rightarrow> string \<Rightarrow> ValidationType list \<Rightarrow> bool \<times> message list" where
  \<comment> \<open>the loop over the declared rules: it leaves at the first rule that fails\<close>
  "validateAll v name [] = (True, [])"
| "validateAll v name (validation # rest) =
     (case validateValue v name validation of
        (False, ms) \<Rightarrow> (False, ms)
      | (True, ms) \<Rightarrow> (case validateAll v name rest of (ok, ms') \<Rightarrow> (ok, ms @ ms')))"

definition countTruthy :: "jsval list \<Rightarrow> nat" where
  \<comment> \<open>\<open>[...].filter(e => e).length\<close>\<close>
  "countTruthy vs = length (filter truthy vs)"

definition keepEntry :: "nat \<Rightarrow> string \<times> jsval \<Rightarrow> bool" where
  \<comment> \<open>the filter of the list pruning\<close>
  "keepEntry max_idx_to_take kv =
     (case parseInt (Some (fst kv)) of
        None \<Rightarrow> False
      | Some idx \<Rightarrow>
          idx < int max_idx_to_take \<and> truthy (snd kv) \<and> isObject (snd kv) \<and>
          (case snd kv of JObj a ps \<Rightarrow> hasKey ps ''0'' \<and> hasKey ps ''1'' | _ \<Rightarrow> False))"

definition pruneList :: "nat \<Rightarrow> string \<Rightarrow> props \<Rightarrow> props" where
  "pruneList max_idx_to_take a entity =
     (let ent = (if \<not> truthy (lookup entity a) \<or> \<not> isObject (lookup entity a)
                 then assign entity a (JObj False []) else entity);
          entriesArray = (case lookup ent a of JObj isArr ps \<Rightarrow> ps | _ \<Rightarrow> []);
          filteredEntries = filter (keepEntry max_idx_to_take) entriesArray
      in assign ent a (JObj False filteredEntries))"

definition countPhotos :: "jsval \<Rightarrow> nat" where
  \<comment> \<open>\<open>numPhotos\<close>: the entries of \<open>showcase.image_urls\<close> with a state other than deleted\<close>
  "countPhotos showcase =
     (case showcase of
        JObj isArr ps \<Rightarrow>
          (if hasKey ps ''image_urls'' then
             (case lookup ps ''image_urls'' of
                JObj True urls \<Rightarrow>
                  length (filter (\<lambda>image_url.
                            case image_url of
                              JObj b qs \<Rightarrow> hasKey qs ''state'' \<and> lookup qs ''state'' \<noteq> JStr ''deleted''
                            | _ \<Rightarrow> False) (arrayElems urls))
              | _ \<Rightarrow> 0)
           else 0)
      | _ \<Rightarrow> 0)"

definition readProp :: "jsval \<Rightarrow> string \<Rightarrow> jsval" where
  \<comment> \<open>\<open>v[k]\<close> where an earlier read of \<open>v\<close> has succeeded, so that it cannot throw\<close>
  "readProp v k = (case getProp v k of Inl e \<Rightarrow> JUndefined | Inr x \<Rightarrow> x)"

definition checkArticle :: "EditEntry \<Rightarrow> props \<Rightarrow> flow \<times> message list \<times> props" where
  "checkArticle editEntry entity =
     (let article = lookup entity (attribute editEntry)
      in case getProp article ''title'' of
           Inl e \<Rightarrow> (Throw, [], entity)
         | Inr title \<Rightarrow>
             (let filledCount =
                    countTruthy [title, readProp article ''content'', readProp article ''image_url'',
                                 readProp article ''subtitle'', readProp article ''button_link''];
                  mandatoryFilledCount =
                    countTruthy [title, readProp article ''content'', readProp article ''image_url'']
              in if filledCount > 0 \<and> mandatoryFilledCount < 3
                 then (Return, [ArticleIncomplete (attributeName editEntry)], entity)
                 else if \<not> truthy title \<and> \<not> truthy (readProp article ''content'')
                 then (Continue, [], assign entity (attribute editEntry) (JObj False []))
                 else (Continue, [], entity)))"

definition checkShowcase :: "EditEntry \<Rightarrow> props \<Rightarrow> flow \<times> message list \<times> props" where
  "checkShowcase editEntry entity =
     (let showcase = lookup entity (attribute editEntry);
          isInstagram = (case extraParam editEntry of
                           None \<Rightarrow> False
                         | Some x \<Rightarrow> (case isInstagramShowcase x of None \<Rightarrow> False | Some b \<Rightarrow> b));
          numRequiredFields = (if isInstagram then 5 else 2 :: nat);
          maxPhotosN = (case extraParam editEntry of
                          None \<Rightarrow> 0
                        | Some x \<Rightarrow> (case maxPhotos x of None \<Rightarrow> 0 | Some n \<Rightarrow> n));
          numPhotos = countPhotos showcase
      in if maxPhotosN \<noteq> 0 \<and> int numPhotos > maxPhotosN
         then (Return, [TooManyPhotos (attributeName editEntry) maxPhotosN], entity)
         else (case getProp showcase ''title'' of
                 Inl e \<Rightarrow> (Throw, [], entity)
               | Inr title \<Rightarrow>
                   (let filledCount =
                          countTruthy [title, JBool (numPhotos > 0)] +
                          (if isInstagram
                           then countTruthy [readProp showcase ''handle'', readProp showcase ''url'',
                                             readProp showcase ''profile_photo_url'']
                           else 0)
                    in if filledCount > 0 \<and> filledCount < numRequiredFields
                       then (Return, [ShowcaseIncomplete isInstagram (attributeName editEntry)],
                             entity)
                       else (Continue, [], entity))))"

definition prepareEntry ::
  "EditEntry list \<Rightarrow> nat list \<Rightarrow> bool \<Rightarrow> EditEntry \<Rightarrow> props \<Rightarrow> flow \<times> message list \<times> props" where
  \<comment> \<open>the first half of one round of the loop over \<open>props.editEntries\<close>: the required
      check, the checkbox overwrite, the Article check and the list pruning\<close>
  "prepareEntry editEntries listFieldSize checkboxFieldValue editEntry entity =
     (if isRequired editEntry \<and> \<not> truthy (lookup entity (attribute editEntry))
      then (Return, [FieldRequired (attributeName editEntry)], entity)
      else
       (let ent1 = (if type editEntry = Checkbox
                    then assign entity (attribute editEntry) (JBool checkboxFieldValue)
                    else entity)
        in case (if type editEntry = Article then checkArticle editEntry ent1
                 else (Continue, [], ent1)) of
             (Continue, ms2, ent2) \<Rightarrow>
               (case sizeAt listFieldSize (editEntryIdx editEntries (attribute editEntry)) of
                  None \<Rightarrow> (Continue, ms2, ent2)
                | Some max_idx_to_take \<Rightarrow>
                    if max_idx_to_take > 0
                    then (Continue, ms2, pruneList max_idx_to_take (attribute editEntry) ent2)
                    else (Continue, ms2, ent2))
           | other \<Rightarrow> other))"

definition processEntry ::
  "EditEntry list \<Rightarrow> nat list \<Rightarrow> bool \<Rightarrow> EditEntry \<Rightarrow> props \<Rightarrow> flow \<times> message list \<times> props" where
  \<comment> \<open>one round of the loop over \<open>props.editEntries\<close>: how the round ends, the messages it
      sends to \<open>toast.error\<close>, and the entity it leaves\<close>
  "processEntry editEntries listFieldSize checkboxFieldValue editEntry entity =
     (case prepareEntry editEntries listFieldSize checkboxFieldValue editEntry entity of
        (Continue, ms2, ent3) \<Rightarrow>
          (case (case validations editEntry of
                   None \<Rightarrow> (True, [])
                 | Some rules \<Rightarrow>
                     validateAll (lookup ent3 (attribute editEntry)) (attributeName editEntry) rules) of
             (False, ms4) \<Rightarrow> (Return, ms2 @ ms4, ent3)
           | (True, ms4) \<Rightarrow>
               (if type editEntry = Showcase
                then (case checkShowcase editEntry ent3 of
                        (fl, ms5, ent5) \<Rightarrow> (fl, ms2 @ ms4 @ ms5, ent5))
                else (Continue, ms2 @ ms4, ent3)))
      | other \<Rightarrow> other)"

fun processEntries ::
  "EditEntry list \<Rightarrow> nat list \<Rightarrow> bool \<Rightarrow> EditEntry list \<Rightarrow> props \<Rightarrow> flow \<times> message list \<times> props"
  where
  "processEntries editEntries listFieldSize checkboxFieldValue [] entity = (Continue, [], entity)"
| "processEntries editEntries listFieldSize checkboxFieldValue (editEntry # rest) entity =
     (case processEntry editEntries listFieldSize checkboxFieldValue editEntry entity of
        (Continue, ms, ent) \<Rightarrow>
          (case processEntries editEntries listFieldSize checkboxFieldValue rest ent of
             (fl, ms', ent') \<Rightarrow> (fl, ms @ ms', ent'))
      | other \<Rightarrow> other)"

subsection \<open>The submit handler\<close>

text \<open>
  What the handler changes outside the entity: the loading indicator, the messages sent
  to \<open>toast\<close>, and the number of errors written to the console by its \<open>catch\<close> block.
\<close>

record ui =
  isLoading :: bool
  toastLog :: "message list"
  errorLog :: nat

datatype handlerResult = Returns | Throws

datatype status =
    Threw      \<comment> \<open>an exception left \<open>handleSubmit\<close>\<close>
  | Rejected   \<comment> \<open>\<open>handleSubmit\<close> returned out of the loop over the descriptors\<close>
  | Scheduled  \<comment> \<open>the timer that calls \<open>onSubmitSuccess\<close> is armed\<close>
  | Finished   \<comment> \<open>no \<open>onSubmitSuccess\<close> was given\<close>

record submitted =
  status :: status
  entityOut :: "props option"
  uiOut :: ui

definition timerCallback :: "(props \<Rightarrow> handlerResult) \<Rightarrow> props \<Rightarrow> ui \<Rightarrow> bool \<times> ui" where
  \<comment> \<open>the function handed to \<open>setTimeout\<close>; the boolean says that an exception left it\<close>
  "timerCallback onSubmitSuccess entity u =
     (case onSubmitSuccess entity of
        Throws \<Rightarrow> (True, u)
      | Returns \<Rightarrow> (False, u\<lparr>isLoading := False, toastLog := toastLog u @ [SubmitSuccess]\<rparr>))"

definition setTimeout :: "'cb \<Rightarrow> error + 'cb" where
  \<comment> \<open>\<open>setTimeout\<close> stores the callback for a later turn of the event loop and returns; it
      does not call it\<close>
  "setTimeout cb = Inr cb"

definition mergeEntity ::
  "EditEntry list \<Rightarrow> nat list \<Rightarrow> (string \<times> string) list \<Rightarrow> props \<Rightarrow> control list \<Rightarrow> error + props"
  where
  \<comment> \<open>the loop over the form controls, then the loop over the upload results\<close>
  "mergeEntity editEntries listFieldSize uploadPhotoMap entity formElements =
     (case applyControls editEntries listFieldSize entity formElements of
        Inl e \<Rightarrow> Inl e
      | Inr ent \<Rightarrow> applyUploads editEntries ent uploadPhotoMap)"

definition handleSubmit ::
  "EditEntry list \<Rightarrow> (props \<Rightarrow> handlerResult) option \<Rightarrow> nat list \<Rightarrow> bool \<Rightarrow>
   (string \<times> string) list \<Rightarrow> ui \<Rightarrow> props \<Rightarrow> control list \<Rightarrow> submitted" where
  "handleSubmit editEntries onSubmitSuccess listFieldSize checkboxFieldValue uploadPhotoMap
     u entity formElements =
     (let u1 = u\<lparr>isLoading := True\<rparr>
      in case mergeEntity editEntries listFieldSize uploadPhotoMap entity formElements of
           Inl e \<Rightarrow> \<lparr>status = Threw, entityOut = None, uiOut = u1\<rparr>
         | Inr merged \<Rightarrow>
             (case processEntries editEntries listFieldSize checkboxFieldValue editEntries merged of
                (Throw, ms, ent) \<Rightarrow>
                  \<lparr>status = Threw, entityOut = Some ent,
                   uiOut = u1\<lparr>toastLog := toastLog u1 @ ms\<rparr>\<rparr>
              | (Return, ms, ent) \<Rightarrow>
                  \<lparr>status = Rejected, entityOut = Some ent,
                   uiOut = u1\<lparr>toastLog := toastLog u1 @ ms\<rparr>\<rparr>
              | (Continue, ms, ent) \<Rightarrow>
                  (let u2 = u1\<lparr>toastLog := toastLog u1 @ ms\<rparr>
                   in case onSubmitSuccess of
                        None \<Rightarrow> \<lparr>status = Finished, entityOut = Some ent, uiOut = u2\<rparr>
                      | Some handler \<Rightarrow>
                          (case setTimeout (timerCallback handler ent) of
                             Inl e \<Rightarrow>
                               \<lparr>status = Finished, entityOut = Some ent,
                                uiOut = u2\<lparr>isLoading := False, errorLog := errorLog u2 + 1\<rparr>\<rparr>
                           | Inr cb \<Rightarrow>
                               \<lparr>status = Scheduled, entityOut = Some ent, uiOut = u2\<rparr>))))"

definition afterTimer :: "(props \<Rightarrow> handlerResult) \<Rightarrow> submitted \<Rightarrow> bool \<times> ui" where
  \<comment> \<open>the event loop runs the armed callback; the boolean says that an exception left it\<close>
  "afterTimer handler r =
     (case (status r, entityOut r) of
        (Scheduled, Some ent) \<Rightarrow> timerCallback handler ent (uiOut r)
      | _ \<Rightarrow> (False, uiOut r))"

section \<open>Rendering: the controls and the writes to the entity\<close>

text \<open>
  For one descriptor the render callback first tests \<open>condition\<close> and returns when it is
  set and false. Otherwise it dispatches on the type: for \<open>Showcase\<close> and \<open>PillList\<close> it
  first writes a default into the shared entity, and then it builds the controls.
  \<open>renderedPaths\<close> gives the named controls, \<open>renderWrites\<close> the writes, and
  \<open>renderEntry\<close> the two together.
\<close>

definition rowIndices :: "nat option \<Rightarrow> nat list" where
  \<comment> \<open>\<open>Array.from(Array(listFieldSize[index]).keys())\<close>\<close>
  "rowIndices n = (case n of None \<Rightarrow> [0] | Some k \<Rightarrow> [0..<k])"

definition renderedPaths ::
  "EditEntry \<Rightarrow> nat option \<Rightarrow> props \<Rightarrow> (string \<times> string) list \<Rightarrow> path list" where
  \<comment> \<open>the named controls the form renders for one descriptor, in order\<close>
  "renderedPaths editEntry rows entity uploadPhotoMap =
     (let a = attribute editEntry
      in if condition editEntry = Some False then []
         else (case type editEntry of
                 Text \<Rightarrow> [Whole a]
               | Select \<Rightarrow> []
               | Date \<Rightarrow> [Whole a]
               | TextList \<Rightarrow> map (ListSingle a) (rowIndices rows)
               | DoubleTextList \<Rightarrow>
                   concat (map (\<lambda>i. [ListPaired a i Pos0, ListPaired a i Pos1]) (rowIndices rows))
               | Checkbox \<Rightarrow> [Whole a]
               | Radio \<Rightarrow> (case options editEntry of None \<Rightarrow> [] | Some os \<Rightarrow> map (\<lambda>option. Whole a) os)
               | TextArea \<Rightarrow> [Whole a]
               | File \<Rightarrow> []
               | FilePhoto \<Rightarrow> []
               | ProfilePhoto \<Rightarrow> []
               | Photo \<Rightarrow>
                   (if (case map_of uploadPhotoMap a of None \<Rightarrow> True | Some url \<Rightarrow> url = []) \<and>
                       \<not> truthy (lookup entity a)
                    then [Whole a] else [])
               | Article \<Rightarrow>
                   [Sub a ''title'', Sub a ''subtitle'', Sub a ''content''] @
                   (case button editEntry of
                      None \<Rightarrow> []
                    | Some b \<Rightarrow> if b = [] then [] else [Sub a ''button_text'', Sub a ''button_link''])
               | Address \<Rightarrow>
                   [Sub a ''street_address'', Sub a ''city'', Sub a ''province'', Sub a ''country'',
                    Sub a ''postal_code'']
               | Showcase \<Rightarrow>
                   Sub a ''title'' #
                   (if (case extraParam editEntry of
                          None \<Rightarrow> False
                        | Some x \<Rightarrow> (case isInstagramShowcase x of None \<Rightarrow> False | Some b \<Rightarrow> b))
                    then [Sub a ''handle'', Sub a ''url''] else [])
               | PillList \<Rightarrow> []))"

definition renderedNames ::
  "EditEntry \<Rightarrow> nat option \<Rightarrow> props \<Rightarrow> (string \<times> string) list \<Rightarrow> string list" where
  "renderedNames editEntry rows entity uploadPhotoMap =
     map encodeName (renderedPaths editEntry rows entity uploadPhotoMap)"

definition renderWrites :: "EditEntry \<Rightarrow> props \<Rightarrow> error + props" where
  \<comment> \<open>the writes of the render callback to the entity, for one descriptor:
      \<open>entity[a] = entity[a] || {}\<close> and \<open>entity[a]["image_urls"] = entity[a]["image_urls"] || []\<close>
      for \<open>Showcase\<close>, \<open>if (!entity[a]) entity[a] = []\<close> for \<open>PillList\<close>
      (\<open>Inl\<close>: the write throws)\<close>
  "renderWrites editEntry entity =
     (let a = attribute editEntry
      in if condition editEntry = Some False then Inr entity
         else (case type editEntry of
                 Showcase \<Rightarrow>
                   (let ent1 = assign entity a
                                 (if truthy (lookup entity a) then lookup entity a
                                  else JObj False [])
                    in case getProp (lookup ent1 a) ''image_urls'' of
                         Inl e \<Rightarrow> Inl e
                       | Inr urls \<Rightarrow>
                           writeNested ent1 a ''image_urls''
                             (if truthy urls then urls else JObj True []))
               | PillList \<Rightarrow> Inr (ensure entity a (JObj True []))
               | _ \<Rightarrow> Inr entity))"

definition renderEntry ::
  "EditEntry \<Rightarrow> nat option \<Rightarrow> props \<Rightarrow> (string \<times> string) list \<Rightarrow> error + (string list \<times> props)"
  where
  \<comment> \<open>the render callback on one descriptor: its writes to the entity, then the names of
      the controls it builds; the entity it leaves is the one \<open>handleSubmit\<close> works on\<close>
  "renderEntry editEntry rows entity uploadPhotoMap =
     (case renderWrites editEntry entity of
        Inl e \<Rightarrow> Inl e
      | Inr ent \<Rightarrow> Inr (renderedNames editEntry rows ent uploadPhotoMap, ent))"

section \<open>Notions used in the statements\<close>


definition nonListSizesZero :: "EditEntry list \<Rightarrow> nat list \<Rightarrow> bool" where
  \<comment> \<open>\<open>listFieldSize\<close> holds 0 at the position of every descriptor that is not a list\<close>
  "nonListSizesZero editEntries listFieldSize =
     list_all (\<lambda>en. isListType (type (fst en)) \<or> snd en = 0) (zip editEntries listFieldSize)"

definition noUnderscore :: "string \<Rightarrow> bool" where
  "noUnderscore s = (CHR ''_'' \<notin> set s)"

fun pathAttribute :: "path \<Rightarrow> string" where
  "pathAttribute (Whole a) = a"
| "pathAttribute (Sub a sub) = a"
| "pathAttribute (ListSingle a i) = a"
| "pathAttribute (ListPaired a i p) = a"

fun subfieldOk :: "path \<Rightarrow> bool" where
  \<comment> \<open>the sub-field token of the path, if it has one, contains no underscore\<close>
  "subfieldOk (Sub a sub) = noUnderscore sub"
| "subfieldOk _ = True"

definition falsyValues :: "jsval list" where
  \<comment> \<open>the falsy values of the model: absent (\<open>undefined\<close>), \<open>null\<close>, the empty string,
      \<open>false\<close> and 0\<close>
  "falsyValues = [JUndefined, JNull, JStr [], JBool False, JNum 0]"

definition plainEntry ::
  "string \<Rightarrow> string \<Rightarrow> EditEntryType \<Rightarrow> bool \<Rightarrow> ValidationType list option \<Rightarrow> EditEntry" where
  \<comment> \<open>a descriptor with its optional members absent, apart from \<open>validations\<close>\<close>
  "plainEntry a n t r vs =
     \<lparr>attribute = a, attributeName = n, type = t, isRequired = r, validations = vs,
      extraParam = None, condition = None, subName = None, characterCount = None,
      info = None, options = None, button = None, subTitle = None\<rparr>"

definition textControl :: "string \<Rightarrow> string \<Rightarrow> control" where
  \<comment> \<open>a control that is no radio button\<close>
  "textControl n v = \<lparr>targetName = n, targetValue = v, isRadio = False, checked = False\<rparr>"

definition idleUi :: ui where
  \<comment> \<open>before a submission: no loading indicator, nothing shown, nothing logged\<close>
  "idleUi = \<lparr>isLoading = False, toastLog = [], errorLog = 0\<rparr>"

definition throwingHandler :: "props \<Rightarrow> handlerResult" where
  \<comment> \<open>an \<open>onSubmitSuccess\<close> that throws whatever it is given\<close>
  "throwingHandler entity = Throws"

section \<open>Facts about the string functions\<close>

lemma str_split_nonempty: "str_split c s \<noteq> []"
  by (induction s) (auto split: list.splits)

lemma str_split_no_sep: "c \<notin> set a \<Longrightarrow> str_split c a = [a]"
  by (induction a) auto

lemma str_split_first: "c \<notin> set a \<Longrightarrow> str_split c (a @ c # r) = a # str_split c r"
  by (induction a) (auto simp: str_split_nonempty split: list.splits)

lemma str_join_split: "str_join c (str_split c s) = s"
proof (induction s)
  case Nil
  then show ?case by simp
next
  case (Cons x xs)
  show ?case
  proof (cases "x = c")
    case True
    obtain y ys where "str_split c xs = y # ys"
      using str_split_nonempty [of c xs] by (cases "str_split c xs") auto
    with True Cons show ?thesis by simp
  next
    case False
    obtain y ys where *: "str_split c xs = y # ys"
      using str_split_nonempty [of c xs] by (cases "str_split c xs") auto
    with False Cons show ?thesis by (cases ys) auto
  qed
qed

lemma startsWith_set: "startsWith s pat \<Longrightarrow> set pat \<subseteq> set s"
  by (induction s pat rule: startsWith.induct) auto

lemma str_includes_set: "str_includes s pat \<Longrightarrow> set pat \<subseteq> set s"
  by (induction s) (auto dest!: startsWith_set)

lemma str_includes_char: "str_includes s [c] = (c \<in> set s)"
  by (induction s) auto

lemma digitChar_digit: "d < 10 \<Longrightarrow> isDigit (digitChar d)"
  by (simp add: isDigit_def digitChar_def)

lemma digitVal_digitChar: "d < 10 \<Longrightarrow> digitVal (digitChar d) = d"
  by (simp add: digitVal_def digitChar_def)

lemma showNat_digits: "\<forall>c \<in> set (showNat n). isDigit c"
  by (induction n rule: showNat.induct) (subst showNat.simps, auto simp: digitChar_digit)

lemma showNat_nonempty: "showNat n \<noteq> []"
  by (subst showNat.simps) auto

lemma digitsVal_snoc: "digitsVal (ds @ [c]) = 10 * digitsVal ds + digitVal c"
  by (simp add: digitsVal_def)

lemma digitsVal_showNat: "digitsVal (showNat n) = n"
proof (induction n rule: showNat.induct)
  case (1 n)
  show ?case
  proof (cases "n < 10")
    case True
    then show ?thesis by (subst showNat.simps) (simp add: digitsVal_def digitVal_digitChar)
  next
    case False
    with 1 show ?thesis
      by (subst showNat.simps) (simp add: digitsVal_snoc digitVal_digitChar)
  qed
qed

lemma isDigit_not_space: "isDigit c \<Longrightarrow> \<not> isSpace c"
  by (auto simp: isDigit_def isSpace_def)

lemma isDigit_not_sign: "isDigit c \<Longrightarrow> c \<noteq> CHR ''-'' \<and> c \<noteq> CHR ''+'' \<and> c \<noteq> CHR ''_''"
  by (auto simp: isDigit_def)

lemma parseInt_showNat: "parseInt (Some (showNat n)) = Some (int n)"
proof -
  obtain c cs where s: "showNat n = c # cs"
    using showNat_nonempty [of n] by (cases "showNat n") auto
  have c: "isDigit c" using showNat_digits [of n] s by simp
  have dw: "dropWhile isSpace (showNat n) = showNat n"
    using isDigit_not_space [OF c] by (simp add: s)
  have tw: "takeWhile isDigit (showNat n) = showNat n"
    using showNat_digits [of n] by (simp add: takeWhile_eq_all_conv)
  have hd: "hd (showNat n) \<noteq> CHR ''-''" "hd (showNat n) \<noteq> CHR ''+''"
    using isDigit_not_sign [OF c] by (simp_all add: s)
  show ?thesis
    unfolding parseInt_def
    by (simp only: option.case dw Let_def hd tw showNat_nonempty digitsVal_showNat
          simp_thms if_False if_True)
qed

lemma showNat_no_underscore: "CHR ''_'' \<notin> set (showNat n)"
  using showNat_digits [of n] isDigit_not_sign by blast

section \<open>The validation rules at their boundaries\<close>

lemma textLengthBelow30_pass: "length s = 30 \<Longrightarrow> validateValue (JStr s) name TextLengthBelow30 = (True, [])"
  by (simp add: textLengthBelow_def)

lemma textLengthBelow30_fail: "length s = 31 \<Longrightarrow> validateValue (JStr s) name TextLengthBelow30 = (False, [TooLong name 30])"
  by (auto simp add: textLengthBelow_def)

lemma textLengthBelow30_absent: "\<not> truthy v \<Longrightarrow> validateValue v name TextLengthBelow30 = (True, [])"
  by (simp add: textLengthBelow_def)

lemmas price_eval = validatePrice_def matchesDecimal_def isDigit_def parseFloat_def at_index_def
  digitsVal_def digitVal_def

lemma price_10000: "validateValue (JStr ''10000'') name Price = (False, [PriceRange name])"
  by (simp add: price_eval)

lemma price_9999: "validateValue (JStr ''9999'') name Price = (True, [])"
  by (simp add: price_eval)

lemma price_0: "validateValue (JStr ''0'') name Price = (False, [PriceRange name])"
  by (simp add: price_eval)

text \<open>
  C6. The boundaries of the validation rules are exact. \<open>TextLengthBelow30\<close> passes every
  string of length 30 and fails every string of length 31, with one message; a falsy
  value (absent, \<open>null\<close>, the empty string) always passes. \<open>Price\<close> fails for
  \<open>"10000"\<close>, passes for \<open>"9999"\<close> and fails for \<open>"0"\<close>.
\<close>

theorem validation_boundaries:
  "(\<forall>s name. length s = 30 \<longrightarrow> validateValue (JStr s) name TextLengthBelow30 = (True, [])) \<and>
   (\<forall>s name. length s = 31 \<longrightarrow>
      validateValue (JStr s) name TextLengthBelow30 = (False, [TooLong name 30])) \<and>
   (\<forall>v name. \<not> truthy v \<longrightarrow> validateValue v name TextLengthBelow30 = (True, [])) \<and>
   (\<forall>name. validateValue (JStr ''10000'') name Price = (False, [PriceRange name])) \<and>
   (\<forall>name. validateValue (JStr ''9999'') name Price = (True, [])) \<and>
   (\<forall>name. validateValue (JStr ''0'') name Price = (False, [PriceRange name]))"
  using textLengthBelow30_pass textLengthBelow30_fail textLengthBelow30_absent
    price_10000 price_9999 price_0 by blast

theorem validation_boundaries_witness:
  "length (replicate 30 CHR ''a'') = 30 \<and>
   validateValue (JStr (replicate 30 CHR ''a'')) ''Title'' TextLengthBelow30 = (True, []) \<and>
   length (replicate 31 CHR ''a'') = 31 \<and>
   validateValue (JStr (replicate 31 CHR ''a'')) ''Title'' TextLengthBelow30
     = (False, [TooLong ''Title'' 30]) \<and>
   \<not> truthy JUndefined \<and>
   validateValue JUndefined ''Title'' TextLengthBelow30 = (True, [])"
proof -
  have l30: "length (replicate 30 CHR ''a'') = 30" by simp
  have l31: "length (replicate 31 CHR ''a'') = 31" by simp
  have absent: "\<not> truthy JUndefined" by simp
  from validation_boundaries have
    a: "\<forall>s name. length s = 30 \<longrightarrow> validateValue (JStr s) name TextLengthBelow30 = (True, [])" and
    b: "\<forall>s name. length s = 31 \<longrightarrow>
          validateValue (JStr s) name TextLengthBelow30 = (False, [TooLong name 30])" and
    c: "\<forall>v name. \<not> truthy v \<longrightarrow> validateValue v name TextLengthBelow30 = (True, [])"
    by blast+
  show ?thesis
    using a [rule_format, OF l30, of "''Title''"] b [rule_format, OF l31, of "''Title''"]
      c [rule_format, OF absent, of "''Title''"] l30 l31 absent
    by blast
qed

section \<open>The codec: splitting and the round trip\<close>

lemma decodeName_attr: "name \<in> set T \<Longrightarrow> decodeName T name = Some (TAttr name)"
  by (simp add: decodeName_def)

lemma decodeName_no_underscore:
  "name \<notin> set T \<Longrightarrow> noUnderscore name \<Longrightarrow> decodeName T name = None"
  by (simp add: decodeName_def noUnderscore_def str_includes_char)

lemma decodeName_split:
  assumes "f @ CHR ''_'' # sub \<notin> set T" and "noUnderscore f"
  shows "decodeName T (f @ CHR ''_'' # sub) =
           (if f \<in> set T then Some (decodeSubField f sub) else None)"
proof -
  have sp: "str_split CHR ''_'' (f @ CHR ''_'' # sub) = f # str_split CHR ''_'' sub"
    using assms(2) by (simp add: noUnderscore_def str_split_first)
  have inc: "str_includes (f @ CHR ''_'' # sub) ''_''"
    by (simp add: str_includes_char)
  show ?thesis
    using assms(1) by (simp add: decodeName_def sp inc slice_from_def str_join_split)
qed

lemma decodeSubField_plain: "noUnderscore sub \<Longrightarrow> decodeSubField f sub = TSub f sub"
proof -
  assume n: "noUnderscore sub"
  have "\<not> str_includes sub ''listfieldidx_''"
    using str_includes_set [of sub "''listfieldidx_''"] n by (auto simp: noUnderscore_def)
  moreover have "\<not> str_includes sub ''listfieldsingleidx_''"
    using str_includes_set [of sub "''listfieldsingleidx_''"] n by (auto simp: noUnderscore_def)
  ultimately show ?thesis by (simp add: decodeSubField_def)
qed



lemma digits_not_includes:
  "\<forall>c \<in> set ds. isDigit c \<Longrightarrow> \<not> str_includes ds ''listfieldidx_''"
proof
  assume d: "\<forall>c \<in> set ds. isDigit c" and i: "str_includes ds ''listfieldidx_''"
  have "set ''listfieldidx_'' \<subseteq> set ds" using i by (rule str_includes_set)
  then have "CHR ''_'' \<in> set ds" by simp
  with d have "isDigit CHR ''_''" by blast
  then show False by (simp add: isDigit_def)
qed

lemma single_no_paired:
  "\<forall>c \<in> set ds. isDigit c \<Longrightarrow> \<not> str_includes (''listfieldsingleidx_'' @ ds) ''listfieldidx_''"
  using digits_not_includes [of ds] by simp

lemma decodeSubField_single:
  "decodeSubField f (''listfieldsingleidx_'' @ showNat i) = TListSingle f (Some (int i))"
proof -
  have d: "\<forall>c \<in> set (showNat i). isDigit c" by (rule showNat_digits)
  have no: "\<not> str_includes (''listfieldsingleidx_'' @ showNat i) ''listfieldidx_''"
    using single_no_paired [OF d] .
  have yes: "str_includes (''listfieldsingleidx_'' @ showNat i) ''listfieldsingleidx_''"
    by simp
  have "str_split CHR ''_'' (''listfieldsingleidx'' @ CHR ''_'' # showNat i)
          = ''listfieldsingleidx'' # str_split CHR ''_'' (showNat i)"
    by (rule str_split_first) simp
  then have sp: "str_split CHR ''_'' (''listfieldsingleidx_'' @ showNat i)
          = [''listfieldsingleidx'', showNat i]"
    using str_split_no_sep [OF showNat_no_underscore, of i] by simp
  show ?thesis
    unfolding decodeSubField_def
    by (simp only: no yes sp if_False if_True) (simp add: at_index_def parseInt_showNat)
qed

lemma posKey_no_underscore: "CHR ''_'' \<notin> set (posKey p)"
  by (cases p) auto

lemma decodeSubField_paired:
  "decodeSubField f (''listfieldidx_'' @ showNat i @ ''_'' @ posKey p)
     = TListPaired f (Some (int i)) (posKey p)"
proof -
  have yes: "str_includes (''listfieldidx_'' @ showNat i @ ''_'' @ posKey p) ''listfieldidx_''"
    by simp
  have s1: "str_split CHR ''_'' (''listfieldidx'' @ CHR ''_'' # (showNat i @ ''_'' @ posKey p))
          = ''listfieldidx'' # str_split CHR ''_'' (showNat i @ ''_'' @ posKey p)"
    by (rule str_split_first) simp
  have s2: "str_split CHR ''_'' (showNat i @ CHR ''_'' # posKey p)
          = showNat i # str_split CHR ''_'' (posKey p)"
    by (rule str_split_first) (rule showNat_no_underscore)
  have s3: "str_split CHR ''_'' (posKey p) = [posKey p]"
    by (rule str_split_no_sep) (rule posKey_no_underscore)
  have sp: "str_split CHR ''_'' (''listfieldidx_'' @ showNat i @ ''_'' @ posKey p)
          = [''listfieldidx'', showNat i, posKey p]"
    using s1 s2 s3 by simp
  show ?thesis
    unfolding decodeSubField_def
    by (simp only: yes sp if_True) (simp add: at_index_def parseInt_showNat slice_from_def)
qed


lemma encodeName_shape:
  "p \<noteq> Whole (pathAttribute p) \<Longrightarrow> \<exists>sub. encodeName p = pathAttribute p @ CHR ''_'' # sub"
  by (cases p) auto

lemma posKey_inj: "posKey a = posKey b \<Longrightarrow> a = b"
  by (cases a; cases b) simp_all

lemma pathTarget_inj: "pathTarget q = pathTarget p \<Longrightarrow> q = p"
  by (cases p; cases q) (simp_all add: posKey_inj)

lemma decode_encode_general:
  assumes "pathAttribute p \<in> set T" "noUnderscore (pathAttribute p)" "subfieldOk p"
    and "p = Whole (pathAttribute p) \<or> encodeName p \<notin> set T"
  shows "decodeName T (encodeName p) = Some (pathTarget p)"
proof (cases p)
  case (Whole a)
  with assms show ?thesis by (simp add: decodeName_attr)
next
  case (Sub a sub)
  with assms have n: "a @ CHR ''_'' # sub \<notin> set T" "noUnderscore a" "a \<in> set T"
    and s: "noUnderscore sub" by simp_all
  have "decodeName T (a @ CHR ''_'' # sub) = Some (decodeSubField a sub)"
    using decodeName_split [OF n(1) n(2)] n(3) by (simp only: if_True)
  then show ?thesis by (simp add: Sub decodeSubField_plain [OF s])
next
  case (ListSingle a i)
  have e: "encodeName p = a @ CHR ''_'' # (''listfieldsingleidx_'' @ showNat i)"
    by (simp add: ListSingle)
  from assms ListSingle have n: "noUnderscore a" "a \<in> set T" by simp_all
  from assms(4) have m: "a @ CHR ''_'' # (''listfieldsingleidx_'' @ showNat i) \<notin> set T"
    unfolding e by (simp add: ListSingle)
  have "decodeName T (a @ CHR ''_'' # (''listfieldsingleidx_'' @ showNat i))
          = Some (decodeSubField a (''listfieldsingleidx_'' @ showNat i))"
    using decodeName_split [OF m n(1)] n(2) by (simp only: if_True)
  also have "\<dots> = Some (pathTarget p)"
    by (simp only: decodeSubField_single ListSingle pathTarget.simps)
  finally show ?thesis by (simp only: e)
next
  case (ListPaired a i pp)
  have e: "encodeName p = a @ CHR ''_'' # (''listfieldidx_'' @ showNat i @ ''_'' @ posKey pp)"
    by (simp add: ListPaired)
  from assms ListPaired have n: "noUnderscore a" "a \<in> set T" by simp_all
  from assms(4)
  have m: "a @ CHR ''_'' # (''listfieldidx_'' @ showNat i @ ''_'' @ posKey pp) \<notin> set T"
    unfolding e by (simp add: ListPaired)
  have "decodeName T (a @ CHR ''_'' # (''listfieldidx_'' @ showNat i @ ''_'' @ posKey pp))
          = Some (decodeSubField a (''listfieldidx_'' @ showNat i @ ''_'' @ posKey pp))"
    using decodeName_split [OF m n(1)] n(2) by (simp only: if_True)
  also have "\<dots> = Some (pathTarget p)"
    by (simp only: decodeSubField_paired ListPaired pathTarget.simps)
  finally show ?thesis by (simp only: e)
qed

text \<open>
  C5 as stated fails: the tokens of the path \<open>home\<close>, \<open>city\<close> contain no underscore, yet
  with \<open>home\<close> and \<open>home_city\<close> both declared the name \<open>home_city\<close> that the encoder
  gives the path is taken as the attribute \<open>home_city\<close>, since the whole name is tested
  against the declared attributes first.
\<close>

theorem roundtrip_collision_counterexample:
  "noUnderscore ''home'' \<and> noUnderscore ''city'' \<and>
   encodeName (Sub ''home'' ''city'') = ''home_city'' \<and>
   decodeName [''home'', ''home_city''] (encodeName (Sub ''home'' ''city''))
     = Some (TAttr ''home_city'') \<and>
   decodeName [''home'', ''home_city''] (encodeName (Sub ''home'' ''city''))
     \<noteq> Some (pathTarget (Sub ''home'' ''city''))"
  by (simp add: noUnderscore_def decodeName_def)

text \<open>
  C5, amended. Round trip of the codec. For every path whose attribute is declared and
  whose attribute and sub-field tokens contain no underscore, provided the name the
  encoder gives the path is not itself a declared attribute (unless the path is that
  whole attribute), decoding the name yields the place that path names, and that place
  belongs to no other path.
\<close>

theorem decode_encode_roundtrip:
  assumes "pathAttribute p \<in> set updateTargets"
    and "noUnderscore (pathAttribute p)"
    and "subfieldOk p"
    and "p = Whole (pathAttribute p) \<or> encodeName p \<notin> set updateTargets"
  shows "decodeName updateTargets (encodeName p) = Some (pathTarget p) \<and>
         (\<forall>q. pathTarget q = pathTarget p \<longrightarrow> q = p)"
proof -
  have "decodeName updateTargets (encodeName p) = Some (pathTarget p)"
    using assms by (rule decode_encode_general)
  moreover have "\<forall>q. pathTarget q = pathTarget p \<longrightarrow> q = p"
    using pathTarget_inj by blast
  ultimately show ?thesis by (rule conjI)
qed

theorem decode_encode_roundtrip_witness:
  "pathAttribute (ListPaired ''faq'' 3 Pos1) \<in> set [''faq'', ''home'', ''home_city''] \<and>
   noUnderscore (pathAttribute (ListPaired ''faq'' 3 Pos1)) \<and>
   subfieldOk (ListPaired ''faq'' 3 Pos1) \<and>
   encodeName (ListPaired ''faq'' 3 Pos1) = ''faq_listfieldidx_3_1'' \<and>
   ''faq_listfieldidx_3_1'' \<notin> set [''faq'', ''home'', ''home_city''] \<and>
   decodeName [''faq'', ''home'', ''home_city''] ''faq_listfieldidx_3_1''
     = Some (TListPaired ''faq'' (Some 3) ''1'')"
proof -
  have h1: "pathAttribute (ListPaired ''faq'' 3 Pos1) \<in> set [''faq'', ''home'', ''home_city'']"
    by simp
  have h2: "noUnderscore (pathAttribute (ListPaired ''faq'' 3 Pos1))"
    by (simp add: noUnderscore_def)
  have h3: "subfieldOk (ListPaired ''faq'' 3 Pos1)" by simp
  have e: "encodeName (ListPaired ''faq'' 3 Pos1) = ''faq_listfieldidx_3_1''" by code_simp
  have n: "''faq_listfieldidx_3_1'' \<notin> set [''faq'', ''home'', ''home_city'']" by simp
  have h4: "ListPaired ''faq'' 3 Pos1 = Whole (pathAttribute (ListPaired ''faq'' 3 Pos1)) \<or>
            encodeName (ListPaired ''faq'' 3 Pos1) \<notin> set [''faq'', ''home'', ''home_city'']"
    using n by (simp only: e simp_thms)
  have t: "pathTarget (ListPaired ''faq'' 3 Pos1) = TListPaired ''faq'' (Some 3) ''1''" by simp
  from decode_encode_roundtrip [OF h1 h2 h3 h4]
  have "decodeName [''faq'', ''home'', ''home_city''] (encodeName (ListPaired ''faq'' 3 Pos1))
          = Some (pathTarget (ListPaired ''faq'' 3 Pos1))" by (rule conjunct1)
  then have d: "decodeName [''faq'', ''home'', ''home_city''] ''faq_listfieldidx_3_1''
          = Some (TListPaired ''faq'' (Some 3) ''1'')" by (simp only: e t)
  show ?thesis
    by (rule conjI [OF h1 conjI [OF h2 conjI [OF h3 conjI [OF e conjI [OF n d]]]]])
qed

text \<open>
  C1 as stated fails: with \<open>button_link\<close> the declared attribute, the name
  \<open>button_link_city\<close> is not decoded to that attribute and the suffix \<open>city\<close>; it is
  ignored.
\<close>

theorem decode_longest_prefix_counterexample:
  "decodeName [''button_link''] ''button_link_city'' = None \<and>
   decodeName [''button_link''] ''button_link_city'' \<noteq> Some (TSub ''button_link'' ''city'')"
  by (simp add: decodeName_def)

text \<open>
  C1, amended. For every name and every declared attribute set: a name that is itself a
  declared attribute decodes to that attribute; any other name is split at its first
  underscore, and is decoded exactly when the text before that underscore is a declared
  attribute, to that attribute and the text after the underscore; a name without an
  underscore that is no attribute is ignored. An attribute that contains an underscore
  is therefore matched only by a name equal to it.
\<close>

theorem decode_first_underscore:
  "(name \<in> set updateTargets \<longrightarrow> decodeName updateTargets name = Some (TAttr name)) \<and>
   (name \<notin> set updateTargets \<and> noUnderscore name \<longrightarrow> decodeName updateTargets name = None) \<and>
   (name \<notin> set updateTargets \<and> noUnderscore f \<and> name = f @ CHR ''_'' # sub \<longrightarrow>
      decodeName updateTargets name =
        (if f \<in> set updateTargets then Some (decodeSubField f sub) else None))"
proof (intro conjI impI)
  assume "name \<in> set updateTargets"
  then show "decodeName updateTargets name = Some (TAttr name)" by (rule decodeName_attr)
next
  assume "name \<notin> set updateTargets \<and> noUnderscore name"
  then show "decodeName updateTargets name = None" by (simp add: decodeName_no_underscore)
next
  assume a: "name \<notin> set updateTargets \<and> noUnderscore f \<and> name = f @ CHR ''_'' # sub"
  then have "f @ CHR ''_'' # sub \<notin> set updateTargets" "noUnderscore f" by auto
  then have "decodeName updateTargets (f @ CHR ''_'' # sub) =
        (if f \<in> set updateTargets then Some (decodeSubField f sub) else None)"
    by (rule decodeName_split)
  with a show "decodeName updateTargets name =
        (if f \<in> set updateTargets then Some (decodeSubField f sub) else None)" by simp
qed

theorem decode_first_underscore_witness:
  "(''address_postal_code'' \<notin> set [''address'', ''button_link''] \<and> noUnderscore ''address'' \<and>
    ''address_postal_code'' = ''address'' @ CHR ''_'' # ''postal_code'') \<and>
   decodeName [''address'', ''button_link''] ''address_postal_code''
     = Some (TSub ''address'' ''postal_code'') \<and>
   ''button_link'' \<in> set [''address'', ''button_link''] \<and>
   decodeName [''address'', ''button_link''] ''button_link'' = Some (TAttr ''button_link'') \<and>
   (''button_link_city'' \<notin> set [''address'', ''button_link''] \<and> noUnderscore ''button'' \<and>
    ''button_link_city'' = ''button'' @ CHR ''_'' # ''link_city'') \<and>
   decodeName [''address'', ''button_link''] ''button_link_city'' = None \<and>
   (''phone'' \<notin> set [''address'', ''button_link''] \<and> noUnderscore ''phone'') \<and>
   decodeName [''address'', ''button_link''] ''phone'' = None"
proof -
  have a: "''address_postal_code'' \<notin> set [''address'', ''button_link''] \<and>
           noUnderscore ''address'' \<and>
           ''address_postal_code'' = ''address'' @ CHR ''_'' # ''postal_code''"
    by (simp add: noUnderscore_def)
  have b: "''button_link'' \<in> set [''address'', ''button_link'']" by simp
  have c: "''button_link_city'' \<notin> set [''address'', ''button_link''] \<and> noUnderscore ''button'' \<and>
           ''button_link_city'' = ''button'' @ CHR ''_'' # ''link_city''"
    by (simp add: noUnderscore_def)
  have d: "''phone'' \<notin> set [''address'', ''button_link''] \<and> noUnderscore ''phone''"
    by (simp add: noUnderscore_def)
  have s: "decodeSubField ''address'' ''postal_code'' = TSub ''address'' ''postal_code''"
    by (simp add: decodeSubField_def)
  have "decodeName [''address'', ''button_link''] ''address_postal_code'' =
          (if ''address'' \<in> set [''address'', ''button_link'']
           then Some (decodeSubField ''address'' ''postal_code'') else None)"
    by (rule decode_first_underscore [THEN conjunct2, THEN conjunct2, THEN mp, OF a])
  then have r1: "decodeName [''address'', ''button_link''] ''address_postal_code''
              = Some (TSub ''address'' ''postal_code'')"
    by (simp add: s)
  have r2: "decodeName [''address'', ''button_link''] ''button_link'' = Some (TAttr ''button_link'')"
    by (rule decode_first_underscore [THEN conjunct1, THEN mp, OF b])
  have "decodeName [''address'', ''button_link''] ''button_link_city'' =
          (if ''button'' \<in> set [''address'', ''button_link'']
           then Some (decodeSubField ''button'' ''link_city'') else None)"
    by (rule decode_first_underscore [THEN conjunct2, THEN conjunct2, THEN mp, OF c])
  then have r3: "decodeName [''address'', ''button_link''] ''button_link_city'' = None"
    by simp
  have r4: "decodeName [''address'', ''button_link''] ''phone'' = None"
    by (rule decode_first_underscore [THEN conjunct2, THEN conjunct1, THEN mp, OF d])
  show ?thesis
    by (rule conjI [OF a conjI [OF r1 conjI [OF b conjI [OF r2 conjI [OF c conjI [OF r3
          conjI [OF d r4]]]]]]])
qed

section \<open>The loop over the descriptors: messages and frame\<close>

lemma lookup_assign: "lookup (assign ps k v) k' = (if k' = k then v else lookup ps k')"
  by (induction ps) (auto simp: lookup_def)

lemma validateValue_messages:
  "validateValue v name r = (ok, ms) \<Longrightarrow> (if ok then ms = [] else (\<exists>m. ms = [m]))"
  by (cases r; cases v)
     (auto simp: textLengthBelow_def validatePrice_def validateNumber_def Let_def
           split: if_splits option.splits)

lemma validateValue_fails:
  "\<not> fst (validateValue v name r) \<Longrightarrow> \<exists>m. validateValue v name r = (False, [m])"
  using validateValue_messages [of v name r "fst (validateValue v name r)" "snd (validateValue v name r)"]
  by (cases "validateValue v name r") auto

lemma validateValue_passes:
  "fst (validateValue v name r) \<Longrightarrow> validateValue v name r = (True, [])"
  using validateValue_messages [of v name r "fst (validateValue v name r)" "snd (validateValue v name r)"]
  by (cases "validateValue v name r") auto

lemma validateAll_first_failure:
  assumes "\<forall>p \<in> set pre. fst (validateValue v name p)" and "\<not> fst (validateValue v name r)"
  shows "validateAll v name (pre @ r # post) = validateValue v name r"
  using assms
proof (induction pre)
  case Nil
  then obtain m where "validateValue v name r = (False, [m])"
    using validateValue_fails by blast
  then show ?case by simp
next
  case (Cons p pre)
  then have "validateValue v name p = (True, [])" by (simp add: validateValue_passes)
  with Cons show ?case by simp
qed

lemma validateAll_messages:
  "validateAll v name rs = (ok, ms) \<Longrightarrow> (if ok then ms = [] else (\<exists>m. ms = [m]))"
proof (induction rs arbitrary: ok ms)
  case Nil
  then show ?case by auto
next
  case (Cons r rs)
  show ?case
  proof (cases "fst (validateValue v name r)")
    case True
    then have "validateValue v name r = (True, [])" by (rule validateValue_passes)
    with Cons show ?thesis by (auto split: prod.splits)
  next
    case False
    then obtain m where "validateValue v name r = (False, [m])"
      using validateValue_fails by blast
    with Cons.prems show ?thesis by auto
  qed
qed


lemma checkArticle_result:
  "checkArticle e ent = (fl, ms, ent') \<Longrightarrow>
     (if fl = Return then (\<exists>m. ms = [m]) else ms = []) \<and>
     (\<forall>k. k \<noteq> attribute e \<longrightarrow> lookup ent' k = lookup ent k)"
  by (auto simp: checkArticle_def Let_def lookup_assign split: sum.splits if_splits)

lemma checkShowcase_result:
  "checkShowcase e ent = (fl, ms, ent') \<Longrightarrow>
     (if fl = Return then (\<exists>m. ms = [m]) else ms = []) \<and> ent' = ent"
  by (auto simp: checkShowcase_def Let_def split: sum.splits if_splits)

lemma pruneList_frame: "k \<noteq> a \<Longrightarrow> lookup (pruneList n a ent) k = lookup ent k"
  by (simp add: pruneList_def Let_def lookup_assign)

lemma prepareEntry_result:
  assumes "prepareEntry E sizes cb e ent = (fl, ms, ent')"
  shows "(if fl = Return then (\<exists>m. ms = [m]) else ms = []) \<and>
         (\<forall>k. k \<noteq> attribute e \<longrightarrow> lookup ent' k = lookup ent k)"
proof (cases "isRequired e \<and> \<not> truthy (lookup ent (attribute e))")
  case True
  with assms show ?thesis by (auto simp: prepareEntry_def)
next
  case False
  define ent1 where "ent1 = (if type e = Checkbox then assign ent (attribute e) (JBool cb) else ent)"
  have f1: "\<forall>k. k \<noteq> attribute e \<longrightarrow> lookup ent1 k = lookup ent k"
    by (simp add: ent1_def lookup_assign)
  obtain fl2 ms2 ent2 where
    a: "(if type e = Article then checkArticle e ent1 else (Continue, [], ent1)) = (fl2, ms2, ent2)"
    by (metis prod_cases3)
  have a2: "(if fl2 = Return then (\<exists>m. ms2 = [m]) else ms2 = []) \<and>
            (\<forall>k. k \<noteq> attribute e \<longrightarrow> lookup ent2 k = lookup ent1 k)"
    using a checkArticle_result [of e ent1 fl2 ms2 ent2] by (auto split: if_splits)
  from assms False a have
    r: "(fl, ms, ent') =
          (case fl2 of
             Continue \<Rightarrow>
               (case sizeAt sizes (editEntryIdx E (attribute e)) of
                  None \<Rightarrow> (Continue, ms2, ent2)
                | Some n \<Rightarrow> if n > 0 then (Continue, ms2, pruneList n (attribute e) ent2)
                            else (Continue, ms2, ent2))
           | _ \<Rightarrow> (fl2, ms2, ent2))"
    by (simp add: prepareEntry_def ent1_def [symmetric] Let_def split: flow.splits)
  show ?thesis
    using r a2 f1 by (cases fl2) (auto simp: pruneList_frame split: option.splits if_splits)
qed


lemma processEntry_validation_failure:
  assumes "prepareEntry E sizes cb e ent = (Continue, ms2, ent3)"
    and "validations e = Some rules"
    and "validateAll (lookup ent3 (attribute e)) (attributeName e) rules = (False, ms4)"
  shows "processEntry E sizes cb e ent = (Return, ms4, ent3)"
proof -
  have "ms2 = []" using prepareEntry_result [OF assms(1)] by simp
  with assms show ?thesis by (simp add: processEntry_def)
qed

lemma processEntry_result:
  assumes "processEntry E sizes cb e ent = (fl, ms, ent')"
  shows "(if fl = Return then (\<exists>m. ms = [m]) else ms = []) \<and>
         (\<forall>k. k \<noteq> attribute e \<longrightarrow> lookup ent' k = lookup ent k)"
proof -
  obtain fl2 ms2 ent3 where p: "prepareEntry E sizes cb e ent = (fl2, ms2, ent3)"
    by (metis prod_cases3)
  note p2 = prepareEntry_result [OF p]
  show ?thesis
  proof (cases "fl2 = Continue")
    case False
    with assms p have "(fl, ms, ent') = (fl2, ms2, ent3)"
      by (cases fl2) (simp_all add: processEntry_def)
    with p2 show ?thesis by simp
  next
    case True
    with p2 have ms2: "ms2 = []" by simp
    obtain ok ms4 where
      v: "(case validations e of None \<Rightarrow> (True, [])
           | Some rules \<Rightarrow> validateAll (lookup ent3 (attribute e)) (attributeName e) rules)
          = (ok, ms4)"
      by (metis surj_pair)
    have v2: "if ok then ms4 = [] else (\<exists>m. ms4 = [m])"
      using v validateAll_messages by (auto split: option.splits)
    show ?thesis
    proof (cases ok)
      case False
      with assms p True v have "(fl, ms, ent') = (Return, ms2 @ ms4, ent3)"
        by (simp add: processEntry_def)
      with p2 v2 False ms2 show ?thesis by auto
    next
      case ok: True
      show ?thesis
      proof (cases "type e = Showcase")
        case False
        with assms p True v ok have "(fl, ms, ent') = (Continue, ms2 @ ms4, ent3)"
          by (simp add: processEntry_def)
        with p2 v2 ok ms2 show ?thesis by auto
      next
        case sc: True
        obtain fl5 ms5 ent5 where c: "checkShowcase e ent3 = (fl5, ms5, ent5)"
          by (metis prod_cases3)
        with assms p True v ok sc have "(fl, ms, ent') = (fl5, ms2 @ ms4 @ ms5, ent5)"
          by (simp add: processEntry_def)
        with p2 v2 ok ms2 checkShowcase_result [OF c] show ?thesis by auto
      qed
    qed
  qed
qed

lemma processEntries_append:
  "processEntries E sizes cb (pre @ rest) ent =
     (case processEntries E sizes cb pre ent of
        (Continue, ms, ent1) \<Rightarrow>
          (case processEntries E sizes cb rest ent1 of (fl, ms', ent') \<Rightarrow> (fl, ms @ ms', ent'))
      | other \<Rightarrow> other)"
  by (induction pre arbitrary: ent) (auto split: prod.splits flow.splits)

lemma processEntries_result:
  "processEntries E sizes cb es ent = (fl, ms, ent') \<Longrightarrow>
     (if fl = Return then (\<exists>m. ms = [m]) else ms = []) \<and>
     (\<forall>k. k \<notin> attribute ` set es \<longrightarrow> lookup ent' k = lookup ent k)"
proof (induction es arbitrary: ent fl ms ent')
  case Nil
  then show ?case by auto
next
  case (Cons e es)
  obtain fl1 ms1 ent1 where p: "processEntry E sizes cb e ent = (fl1, ms1, ent1)"
    by (metis prod_cases3)
  note p2 = processEntry_result [OF p]
  show ?case
  proof (cases "fl1 = Continue")
    case False
    with Cons.prems p have "(fl, ms, ent') = (fl1, ms1, ent1)" by (cases fl1) simp_all
    with p2 show ?thesis by auto
  next
    case True
    obtain fl2 ms2 ent2 where q: "processEntries E sizes cb es ent1 = (fl2, ms2, ent2)"
      by (metis prod_cases3)
    with Cons.prems p True have e: "(fl, ms, ent') = (fl2, ms1 @ ms2, ent2)" by simp
    from p2 True have "ms1 = []" by simp
    with e Cons.IH [OF q] p2 show ?thesis by auto
  qed
qed

lemma processEntries_first_return:
  assumes "processEntries E sizes cb pre ent0 = (Continue, ms, ent)"
    and "processEntry E sizes cb e ent = (Return, ms', ent')"
  shows "processEntries E sizes cb (pre @ e # post) ent0 = (Return, ms', ent')"
proof -
  have "ms = []" using processEntries_result [OF assms(1)] by simp
  with assms show ?thesis by (simp add: processEntries_append)
qed

lemma handleSubmit_rejected:
  assumes "mergeEntity E sizes ups entity ctrls = Inr merged"
    and "processEntries E sizes cb E merged = (Return, [m], ent)"
  shows "handleSubmit E h sizes cb ups u entity ctrls =
           \<lparr>status = Rejected, entityOut = Some ent,
            uiOut = u\<lparr>isLoading := True, toastLog := toastLog u @ [m]\<rparr>\<rparr>"
  using assms by (simp add: handleSubmit_def)

section \<open>Rejected submissions\<close>

lemmas submit_eval =
  handleSubmit_def mergeEntity_def applyControl_def applyUpload_def writeTarget_def decodeName_def
  decodeSubField_def writeNested_def ensure_def ensureRow_def setProp_def getProp_def lookup_def
  subFieldValue_def mkArray_def sizeAt_def editEntryIdx_def idxAtLeast_def at_index_def
  slice_from_def numKey_def parseInt_def digitsVal_def digitVal_def isDigit_def isSpace_def
  processEntry_def prepareEntry_def pruneList_def keepEntry_def hasKey_def checkArticle_def
  checkShowcase_def countTruthy_def countPhotos_def readProp_def arrayElems_def isIndexKey_def
  plainEntry_def textControl_def idleUi_def Let_def

text \<open>
  C7. Validation is fail-fast. When the loop over the descriptors reaches a descriptor
  (every earlier one has passed) whose declared rules, taken in their declared order,
  pass up to a first rule that fails, that rule sends exactly one message, the rules
  after it and the descriptors after this one make no difference, and the submission
  is rejected with that single message: the timer that calls the success handler is
  never armed.
\<close>

theorem fail_fast:
  assumes "editEntries = pre @ e # post"
    and "mergeEntity editEntries listFieldSize uploadPhotoMap entity formElements = Inr merged"
    and "processEntries editEntries listFieldSize checkboxFieldValue pre merged = (Continue, ms, ent)"
    and "prepareEntry editEntries listFieldSize checkboxFieldValue e ent = (Continue, ms2, ent3)"
    and "validations e = Some (passing @ r # later)"
    and "\<forall>p \<in> set passing. fst (validateValue (lookup ent3 (attribute e)) (attributeName e) p)"
    and "\<not> fst (validateValue (lookup ent3 (attribute e)) (attributeName e) r)"
  shows "\<exists>m. validateValue (lookup ent3 (attribute e)) (attributeName e) r = (False, [m]) \<and>
             validateAll (lookup ent3 (attribute e)) (attributeName e) (passing @ r # later)
               = (False, [m]) \<and>
             handleSubmit editEntries onSubmitSuccess listFieldSize checkboxFieldValue
                 uploadPhotoMap u entity formElements
               = \<lparr>status = Rejected, entityOut = Some ent3,
                  uiOut = u\<lparr>isLoading := True, toastLog := toastLog u @ [m]\<rparr>\<rparr>"
proof -
  obtain m where m: "validateValue (lookup ent3 (attribute e)) (attributeName e) r = (False, [m])"
    using validateValue_fails [OF assms(7)] by blast
  have all: "validateAll (lookup ent3 (attribute e)) (attributeName e) (passing @ r # later)
               = (False, [m])"
    using validateAll_first_failure [OF assms(6) assms(7)] m by simp
  have "processEntry editEntries listFieldSize checkboxFieldValue e ent = (Return, [m], ent3)"
    using processEntry_validation_failure [OF assms(4) assms(5) all] .
  then have "processEntries editEntries listFieldSize checkboxFieldValue (pre @ e # post) merged
               = (Return, [m], ent3)"
    using processEntries_first_return [OF assms(3)] by blast
  then have "processEntries editEntries listFieldSize checkboxFieldValue editEntries merged
               = (Return, [m], ent3)"
    using assms(1) by simp
  then have "handleSubmit editEntries onSubmitSuccess listFieldSize checkboxFieldValue
                 uploadPhotoMap u entity formElements
               = \<lparr>status = Rejected, entityOut = Some ent3,
                  uiOut = u\<lparr>isLoading := True, toastLog := toastLog u @ [m]\<rparr>\<rparr>"
    using handleSubmit_rejected [OF assms(2)] by blast
  with m all show ?thesis by blast
qed

theorem fail_fast_witness:
  "mergeEntity
     [plainEntry ''email'' ''Email'' Text False (Some [TextLengthBelow30, Email, UserName]),
      plainEntry ''phone'' ''Phone'' Text True None]
     [0, 0] [] [] [textControl ''email'' ''bob smith'']
     = Inr [(''email'', JStr ''bob smith'')] \<and>
   fst (validateValue (JStr ''bob smith'') ''Email'' TextLengthBelow30) \<and>
   validateValue (JStr ''bob smith'') ''Email'' Email = (False, [EmailInvalid ''Email'']) \<and>
   handleSubmit
     [plainEntry ''email'' ''Email'' Text False (Some [TextLengthBelow30, Email, UserName]),
      plainEntry ''phone'' ''Phone'' Text True None]
     None [0, 0] False [] idleUi [] [textControl ''email'' ''bob smith'']
     = \<lparr>status = Rejected, entityOut = Some [(''email'', JStr ''bob smith'')],
        uiOut = \<lparr>isLoading = True, toastLog = [EmailInvalid ''Email''], errorLog = 0\<rparr>\<rparr>"
proof -
  define e where "e = plainEntry ''email'' ''Email'' Text False (Some [TextLengthBelow30, Email, UserName])"
  define e2 where "e2 = plainEntry ''phone'' ''Phone'' Text True None"
  define merged where "merged = [(''email'', JStr ''bob smith'')]"
  have h1: "[e, e2] = [] @ e # [e2]" by simp
  have h2: "mergeEntity [e, e2] [0, 0] [] [] [textControl ''email'' ''bob smith''] = Inr merged"
    by (simp add: e_def e2_def merged_def submit_eval)
  have h3: "processEntries [e, e2] [0, 0] False [] merged = (Continue, [], merged)" by simp
  have h4: "prepareEntry [e, e2] [0, 0] False e merged = (Continue, [], merged)"
    by (simp add: e_def e2_def merged_def submit_eval)
  have h5: "validations e = Some ([TextLengthBelow30] @ Email # [UserName])"
    by (simp add: e_def plainEntry_def)
  have v: "lookup merged (attribute e) = JStr ''bob smith''" "attributeName e = ''Email''"
    by (simp_all add: e_def merged_def plainEntry_def lookup_def)
  have p: "fst (validateValue (JStr ''bob smith'') ''Email'' TextLengthBelow30)"
    by (simp add: textLengthBelow_def)
  have f: "validateValue (JStr ''bob smith'') ''Email'' Email = (False, [EmailInvalid ''Email''])"
    by (simp add: afterAt_def isSpace_def)
  have h6: "\<forall>p \<in> set [TextLengthBelow30].
              fst (validateValue (lookup merged (attribute e)) (attributeName e) p)"
    using p by (simp add: v)
  have h7: "\<not> fst (validateValue (lookup merged (attribute e)) (attributeName e) Email)"
    using f by (simp add: v)
  from fail_fast [OF h1 h2 h3 h4 h5 h6 h7, of None idleUi]
  obtain m where
    m: "validateValue (lookup merged (attribute e)) (attributeName e) Email = (False, [m])" and
    r: "handleSubmit [e, e2] None [0, 0] False [] idleUi [] [textControl ''email'' ''bob smith'']
          = \<lparr>status = Rejected, entityOut = Some merged,
             uiOut = idleUi\<lparr>isLoading := True, toastLog := toastLog idleUi @ [m]\<rparr>\<rparr>"
    by blast
  from m f have "m = EmailInvalid ''Email''" by (simp add: v)
  with r have "handleSubmit [e, e2] None [0, 0] False [] idleUi [] [textControl ''email'' ''bob smith'']
          = \<lparr>status = Rejected, entityOut = Some merged,
             uiOut = \<lparr>isLoading = True, toastLog = [EmailInvalid ''Email''], errorLog = 0\<rparr>\<rparr>"
    by (simp add: idleUi_def)
  with h2 p f show ?thesis unfolding e_def e2_def merged_def by (intro conjI)
qed

lemma falsy_iff: "(\<not> truthy v) = (v \<in> set falsyValues)"
  by (cases v) (auto simp: falsyValues_def)

lemma handleSubmit_status:
  assumes "mergeEntity E sizes ups entity ctrls = Inr merged"
    and "processEntries E sizes cb E merged = (fl, ms, ent)"
    and "fl \<noteq> Continue"
  shows "status (handleSubmit E h sizes cb ups u entity ctrls) = (if fl = Return then Rejected else Threw)"
  using assms by (cases fl) (simp_all add: handleSubmit_def)

text \<open>
  C10 as stated fails: a required descriptor whose merged value is the empty string does
  not make the submission abort with "Field is required" when an earlier descriptor
  fails first. Here the rule \<open>Email\<close> of the first descriptor rejects the submission, and
  the one message is that rule's.
\<close>

theorem required_message_counterexample:
  "isRequired (plainEntry ''name'' ''Name'' Text True None) \<and>
   mergeEntity
       [plainEntry ''email'' ''Email'' Text False (Some [Email]),
        plainEntry ''name'' ''Name'' Text True None]
       [0, 0] [] [] [textControl ''email'' ''bob'', textControl ''name'' []]
     = Inr [(''email'', JStr ''bob''), (''name'', JStr [])] \<and>
   lookup [(''email'', JStr ''bob''), (''name'', JStr [])] ''name'' = JStr [] \<and>
   handleSubmit
       [plainEntry ''email'' ''Email'' Text False (Some [Email]),
        plainEntry ''name'' ''Name'' Text True None]
       None [0, 0] False [] idleUi [] [textControl ''email'' ''bob'', textControl ''name'' []]
     = \<lparr>status = Rejected, entityOut = Some [(''email'', JStr ''bob''), (''name'', JStr [])],
        uiOut = \<lparr>isLoading = True, toastLog = [EmailInvalid ''Email''], errorLog = 0\<rparr>\<rparr>"
  by (simp add: submit_eval)

text \<open>
  C10, amended. For every descriptor with \<open>isRequired\<close> set whose attribute holds a falsy
  value in the merged entity (absent, \<open>null\<close>, the empty string, \<open>false\<close> or 0), the
  submission aborts: it is never accepted. When the loop reaches the descriptor (the
  earlier descriptors, which have other attributes, have passed), the submission is
  rejected with the single message "Field is required". The declared validation rules
  of the descriptor play no part: the check comes before them, whether or not
  \<open>RequiredField\<close> is among them.
\<close>

theorem required_field_check:
  assumes "editEntries = pre @ e # post"
    and "mergeEntity editEntries listFieldSize uploadPhotoMap entity formElements = Inr merged"
    and "attribute e \<notin> attribute ` set pre"
    and "isRequired e"
    and "lookup merged (attribute e) \<in> set falsyValues"
  shows "status (handleSubmit editEntries onSubmitSuccess listFieldSize checkboxFieldValue
                   uploadPhotoMap u entity formElements) \<in> {Rejected, Threw} \<and>
         (processEntries editEntries listFieldSize checkboxFieldValue pre merged = (Continue, ms, ent)
          \<longrightarrow>
          handleSubmit editEntries onSubmitSuccess listFieldSize checkboxFieldValue
             uploadPhotoMap u entity formElements
           = \<lparr>status = Rejected, entityOut = Some ent,
              uiOut = u\<lparr>isLoading := True,
                        toastLog := toastLog u @ [FieldRequired (attributeName e)]\<rparr>\<rparr>)"
proof -
  have reach: "handleSubmit editEntries onSubmitSuccess listFieldSize checkboxFieldValue
             uploadPhotoMap u entity formElements
           = \<lparr>status = Rejected, entityOut = Some ent',
              uiOut = u\<lparr>isLoading := True,
                        toastLog := toastLog u @ [FieldRequired (attributeName e)]\<rparr>\<rparr>"
    if p: "processEntries editEntries listFieldSize checkboxFieldValue pre merged = (Continue, ms', ent')"
    for ms' ent'
  proof -
    have "lookup ent' (attribute e) = lookup merged (attribute e)"
      using processEntries_result [OF p] assms(3) by blast
    then have "\<not> truthy (lookup ent' (attribute e))" using assms(5) by (simp add: falsy_iff)
    then have "prepareEntry editEntries listFieldSize checkboxFieldValue e ent'
                 = (Return, [FieldRequired (attributeName e)], ent')"
      using assms(4) by (simp add: prepareEntry_def)
    then have "processEntry editEntries listFieldSize checkboxFieldValue e ent'
                 = (Return, [FieldRequired (attributeName e)], ent')"
      by (simp add: processEntry_def)
    then have "processEntries editEntries listFieldSize checkboxFieldValue (pre @ e # post) merged
                 = (Return, [FieldRequired (attributeName e)], ent')"
      using processEntries_first_return [OF p] by blast
    then show ?thesis
      using handleSubmit_rejected [OF assms(2)] assms(1) by simp
  qed
  obtain fl1 ms1 ent1 where
    q: "processEntries editEntries listFieldSize checkboxFieldValue pre merged = (fl1, ms1, ent1)"
    by (metis prod_cases3)
  have "status (handleSubmit editEntries onSubmitSuccess listFieldSize checkboxFieldValue
                   uploadPhotoMap u entity formElements) \<in> {Rejected, Threw}"
  proof (cases "fl1 = Continue")
    case True
    with q reach show ?thesis by simp
  next
    case False
    with q have "processEntries editEntries listFieldSize checkboxFieldValue (pre @ e # post) merged
                   = (fl1, ms1, ent1)"
      by (cases fl1) (simp_all add: processEntries_append)
    with assms(1) have "processEntries editEntries listFieldSize checkboxFieldValue editEntries merged
                   = (fl1, ms1, ent1)" by simp
    from handleSubmit_status [OF assms(2) this False] show ?thesis by simp
  qed
  with reach show ?thesis by blast
qed

theorem required_field_check_witness:
  "mergeEntity
       [plainEntry ''email'' ''Email'' Text False (Some [Email]),
        plainEntry ''name'' ''Name'' Text True (Some [RequiredField, TextLengthBelow30])]
       [0, 0] [] [] [textControl ''email'' ''a@b.c'', textControl ''name'' []]
     = Inr [(''email'', JStr ''a@b.c''), (''name'', JStr [])] \<and>
   processEntries
       [plainEntry ''email'' ''Email'' Text False (Some [Email]),
        plainEntry ''name'' ''Name'' Text True (Some [RequiredField, TextLengthBelow30])]
       [0, 0] False [plainEntry ''email'' ''Email'' Text False (Some [Email])]
       [(''email'', JStr ''a@b.c''), (''name'', JStr [])]
     = (Continue, [], [(''email'', JStr ''a@b.c''), (''name'', JStr [])]) \<and>
   isRequired (plainEntry ''name'' ''Name'' Text True (Some [RequiredField, TextLengthBelow30])) \<and>
   lookup [(''email'', JStr ''a@b.c''), (''name'', JStr [])] ''name'' \<in> set falsyValues \<and>
   handleSubmit
       [plainEntry ''email'' ''Email'' Text False (Some [Email]),
        plainEntry ''name'' ''Name'' Text True (Some [RequiredField, TextLengthBelow30])]
       None [0, 0] False [] idleUi [] [textControl ''email'' ''a@b.c'', textControl ''name'' []]
     = \<lparr>status = Rejected,
        entityOut = Some [(''email'', JStr ''a@b.c''), (''name'', JStr [])],
        uiOut = \<lparr>isLoading = True, toastLog = [FieldRequired ''Name''], errorLog = 0\<rparr>\<rparr>"
proof -
  define e0 where "e0 = plainEntry ''email'' ''Email'' Text False (Some [Email])"
  define e where
    "e = plainEntry ''name'' ''Name'' Text True (Some [RequiredField, TextLengthBelow30])"
  define merged where "merged = [(''email'', JStr ''a@b.c''), (''name'', JStr [])]"
  define ctrls where "ctrls = [textControl ''email'' ''a@b.c'', textControl ''name'' []]"
  have a: "attribute e = ''name''" "attributeName e = ''Name''" "attribute e0 = ''email''"
    by (simp_all add: e_def e0_def plainEntry_def)
  have h1: "[e0, e] = [e0] @ e # []" by simp
  have h2: "mergeEntity [e0, e] [0, 0] [] [] ctrls = Inr merged"
    by (simp add: e_def e0_def merged_def ctrls_def submit_eval)
  have h3: "processEntries [e0, e] [0, 0] False [e0] merged = (Continue, [], merged)"
    by (simp add: e_def e0_def merged_def submit_eval afterAt_def)
  have h4: "attribute e \<notin> attribute ` set [e0]" by (simp add: a)
  have h5: "isRequired e" by (simp add: e_def plainEntry_def)
  have h6: "lookup merged (attribute e) \<in> set falsyValues"
    by (simp add: a merged_def lookup_def falsyValues_def)
  have "handleSubmit [e0, e] None [0, 0] False [] idleUi [] ctrls
          = \<lparr>status = Rejected, entityOut = Some merged,
             uiOut = idleUi\<lparr>isLoading := True,
                       toastLog := toastLog idleUi @ [FieldRequired (attributeName e)]\<rparr>\<rparr>"
    by (rule required_field_check [OF h1 h2 h4 h5 h6, THEN conjunct2, THEN mp, OF h3])
  then have r: "handleSubmit [e0, e] None [0, 0] False [] idleUi [] ctrls
          = \<lparr>status = Rejected, entityOut = Some merged,
             uiOut = \<lparr>isLoading = True, toastLog = [FieldRequired ''Name''], errorLog = 0\<rparr>\<rparr>"
    by (simp add: idleUi_def a)
  have h6': "lookup merged ''name'' \<in> set falsyValues" using h6 by (simp only: a)
  show ?thesis
    using conjI [OF h2 conjI [OF h3 conjI [OF h5 conjI [OF h6' r]]]]
    unfolding e_def e0_def merged_def ctrls_def .
qed

section \<open>Checkboxes\<close>




lemma initialListFieldSize_zero: "nonListSizesZero E (initialListFieldSize E entityObj)"
  by (simp add: nonListSizesZero_def initialListFieldSize_def list_all_iff zip_map2)
     (auto simp: in_set_zip split: if_splits)

lemma growList_zero:
  assumes "nonListSizesZero E sizes" and "i < length E" and "isListType (type (E ! i))"
    and "growList sizes i = Some sizes'"
  shows "nonListSizesZero E sizes'"
  using assms
  by (auto simp: nonListSizesZero_def growList_def list_all_iff in_set_zip nth_list_update
           split: if_splits)

lemma shrinkList_zero:
  assumes "nonListSizesZero E sizes" and "i < length E" and "isListType (type (E ! i))"
    and "shrinkList sizes i = Some sizes'"
  shows "nonListSizesZero E sizes'"
  using assms
  by (auto simp: nonListSizesZero_def shrinkList_def list_all_iff in_set_zip nth_list_update
           split: if_splits)









section \<open>The \<open>condition\<close> of a descriptor\<close>

lemma condition_attribute: "map attribute (map (\<lambda>d. d\<lparr>condition := c d\<rparr>) E) = map attribute E"
  by (induction E) auto

lemma condition_editEntryIdx: "editEntryIdx (map (\<lambda>d. d\<lparr>condition := c d\<rparr>) E) = editEntryIdx E"
proof
  fix a
  have "length (map (\<lambda>d. d\<lparr>condition := c d\<rparr>) E) = length E" by simp
  then show "editEntryIdx (map (\<lambda>d. d\<lparr>condition := c d\<rparr>) E) a = editEntryIdx E a"
    unfolding editEntryIdx_def by (simp only: condition_attribute)
qed

lemma condition_writeTarget:
  "writeTarget (map (\<lambda>d. d\<lparr>condition := c d\<rparr>) E) sizes ent tg v = writeTarget E sizes ent tg v"
  by (cases tg) (simp_all add: writeTarget_def condition_editEntryIdx)

lemma condition_applyControl:
  "applyControl (map (\<lambda>d. d\<lparr>condition := c d\<rparr>) E) sizes ent t = applyControl E sizes ent t"
  unfolding applyControl_def by (simp only: condition_attribute condition_writeTarget)

lemma condition_applyControls:
  "applyControls (map (\<lambda>d. d\<lparr>condition := c d\<rparr>) E) sizes ent ts = applyControls E sizes ent ts"
  by (induction ts arbitrary: ent) (simp_all add: condition_applyControl split: sum.splits)

lemma condition_applyUpload:
  "applyUpload (map (\<lambda>d. d\<lparr>condition := c d\<rparr>) E) ent up = applyUpload E ent up"
  unfolding applyUpload_def by (simp only: condition_attribute)

lemma condition_applyUploads:
  "applyUploads (map (\<lambda>d. d\<lparr>condition := c d\<rparr>) E) ent ups = applyUploads E ent ups"
  by (induction ups arbitrary: ent) (simp_all add: condition_applyUpload split: sum.splits)

lemma condition_prepareEntry:
  "prepareEntry (map (\<lambda>d. d\<lparr>condition := c d\<rparr>) E) sizes cb (e\<lparr>condition := x\<rparr>) ent
     = prepareEntry E sizes cb e ent"
proof -
  have "checkArticle (e\<lparr>condition := x\<rparr>) = checkArticle e"
    by (rule ext) (simp add: checkArticle_def Let_def split: sum.splits)
  then show ?thesis
    by (simp add: prepareEntry_def condition_editEntryIdx Let_def
          split: prod.splits flow.splits option.splits)
qed

lemma condition_processEntry:
  "processEntry (map (\<lambda>d. d\<lparr>condition := c d\<rparr>) E) sizes cb (e\<lparr>condition := x\<rparr>) ent
     = processEntry E sizes cb e ent"
proof -
  have "checkShowcase (e\<lparr>condition := x\<rparr>) = checkShowcase e"
    by (rule ext) (simp add: checkShowcase_def Let_def split: sum.splits)
  then show ?thesis
    by (simp add: processEntry_def condition_prepareEntry
          cong: prod.case_cong flow.case_cong bool.case_cong option.case_cong if_cong)
qed

lemma condition_processEntries:
  "processEntries (map (\<lambda>d. d\<lparr>condition := c d\<rparr>) E) sizes cb
       (map (\<lambda>d. d\<lparr>condition := c d\<rparr>) es) ent
     = processEntries E sizes cb es ent"
  by (induction es arbitrary: ent)
     (simp_all add: condition_processEntry split: prod.splits flow.splits)

lemma condition_handleSubmit:
  "handleSubmit (map (\<lambda>d. d\<lparr>condition := c d\<rparr>) E) h sizes cb ups u ent ts
     = handleSubmit E h sizes cb ups u ent ts"
proof -
  have "mergeEntity (map (\<lambda>d. d\<lparr>condition := c d\<rparr>) E) sizes ups ent ts
          = mergeEntity E sizes ups ent ts"
    by (simp add: mergeEntity_def condition_applyControls condition_applyUploads
          cong: sum.case_cong)
  moreover have "processEntries (map (\<lambda>d. d\<lparr>condition := c d\<rparr>) E) sizes cb
                   (map (\<lambda>d. d\<lparr>condition := c d\<rparr>) E) m
                 = processEntries E sizes cb E m" for m
    by (rule condition_processEntries)
  ultimately show ?thesis unfolding handleSubmit_def by (simp only:)
qed

lemma condition_false_renders_nothing:
  "condition e = Some False \<Longrightarrow> renderEntry e rows ent ups = Inr ([], ent)"
  by (simp add: renderEntry_def renderWrites_def renderedNames_def renderedPaths_def)

text \<open>
  C4 as stated fails: for a required descriptor whose \<open>condition\<close> is false, the
  required-field check runs and rejects the submission when the entity has no value for
  it, and the same submission is accepted when the entity has one.
\<close>

theorem condition_not_consulted_counterexample:
  "condition ((plainEntry ''x'' ''X'' Text True None)\<lparr>condition := Some False\<rparr>) = Some False \<and>
   handleSubmit [(plainEntry ''x'' ''X'' Text True None)\<lparr>condition := Some False\<rparr>]
       None [0] False [] idleUi [] []
     = \<lparr>status = Rejected, entityOut = Some [],
        uiOut = \<lparr>isLoading = True, toastLog = [FieldRequired ''X''], errorLog = 0\<rparr>\<rparr> \<and>
   handleSubmit [(plainEntry ''x'' ''X'' Text True None)\<lparr>condition := Some False\<rparr>]
       None [0] False [] idleUi [(''x'', JStr ''v'')] []
     = \<lparr>status = Finished, entityOut = Some [(''x'', JStr ''v'')],
        uiOut = \<lparr>isLoading = True, toastLog = [], errorLog = 0\<rparr>\<rparr>"
  by (simp add: submit_eval)

text \<open>
  C4, amended. For a descriptor whose \<open>condition\<close> is false the render callback does
  nothing: it builds no control, so the descriptor contributes no raw form value, and it
  makes no write to the entity. \<open>handleSubmit\<close> does not read \<open>condition\<close>: on the same
  entity, upload results and form controls its result is the same whatever the
  \<open>condition\<close> fields are, so the required-field check, the declared rules, the composite
  checks and the list pruning run for the descriptor as for any other, on the value the
  entity holds for it.
\<close>

theorem condition_gates_rendering_only:
  "(condition e = Some False \<longrightarrow> renderEntry e rows entity uploadPhotoMap = Inr ([], entity)) \<and>
   handleSubmit (map (\<lambda>d. d\<lparr>condition := c d\<rparr>) editEntries) onSubmitSuccess listFieldSize
       checkboxFieldValue uploadPhotoMap u entity formElements
     = handleSubmit editEntries onSubmitSuccess listFieldSize
         checkboxFieldValue uploadPhotoMap u entity formElements"
proof (intro conjI impI)
  assume "condition e = Some False"
  then show "renderEntry e rows entity uploadPhotoMap = Inr ([], entity)"
    by (rule condition_false_renders_nothing)
next
  show "handleSubmit (map (\<lambda>d. d\<lparr>condition := c d\<rparr>) editEntries) onSubmitSuccess listFieldSize
       checkboxFieldValue uploadPhotoMap u entity formElements
     = handleSubmit editEntries onSubmitSuccess listFieldSize
         checkboxFieldValue uploadPhotoMap u entity formElements"
    by (rule condition_handleSubmit)
qed

text \<open>
  An instance: a required \<open>PillList\<close> on an entity without a value for it. Rendered, the
  descriptor gets the empty array as its value and the submission is accepted; with
  \<open>condition\<close> false nothing is rendered or written and the submission is rejected.
\<close>

theorem condition_gates_rendering_only_witness:
  "condition ((plainEntry ''pills'' ''Pills'' PillList True None)\<lparr>condition := Some False\<rparr>)
     = Some False \<and>
   renderEntry ((plainEntry ''pills'' ''Pills'' PillList True None)\<lparr>condition := Some False\<rparr>)
       (Some 0) [] [] = Inr ([], []) \<and>
   handleSubmit [(plainEntry ''pills'' ''Pills'' PillList True None)\<lparr>condition := Some False\<rparr>]
       None [0] False [] idleUi [] []
     = \<lparr>status = Rejected, entityOut = Some [],
        uiOut = \<lparr>isLoading = True, toastLog = [FieldRequired ''Pills''], errorLog = 0\<rparr>\<rparr> \<and>
   renderEntry (plainEntry ''pills'' ''Pills'' PillList True None) (Some 0) [] []
     = Inr ([], [(''pills'', JObj True [])]) \<and>
   handleSubmit [plainEntry ''pills'' ''Pills'' PillList True None]
       None [0] False [] idleUi [(''pills'', JObj True [])] []
     = \<lparr>status = Finished, entityOut = Some [(''pills'', JObj True [])],
        uiOut = \<lparr>isLoading = True, toastLog = [], errorLog = 0\<rparr>\<rparr>"
proof -
  have c: "condition ((plainEntry ''pills'' ''Pills'' PillList True None)\<lparr>condition := Some False\<rparr>)
             = Some False" by simp
  have r: "renderEntry ((plainEntry ''pills'' ''Pills'' PillList True None)\<lparr>condition := Some False\<rparr>)
             (Some 0) [] [] = Inr ([], [])"
    by (rule condition_gates_rendering_only [THEN conjunct1, THEN mp, OF c])
  have s1: "handleSubmit [(plainEntry ''pills'' ''Pills'' PillList True None)\<lparr>condition := Some False\<rparr>]
       None [0] False [] idleUi [] []
     = \<lparr>status = Rejected, entityOut = Some [],
        uiOut = \<lparr>isLoading = True, toastLog = [FieldRequired ''Pills''], errorLog = 0\<rparr>\<rparr>"
    by (simp add: submit_eval)
  have v: "renderEntry (plainEntry ''pills'' ''Pills'' PillList True None) (Some 0) [] []
             = Inr ([], [(''pills'', JObj True [])])"
    by (simp add: renderEntry_def renderWrites_def renderedNames_def renderedPaths_def
          plainEntry_def ensure_def lookup_def)
  have s2: "handleSubmit [plainEntry ''pills'' ''Pills'' PillList True None]
       None [0] False [] idleUi [(''pills'', JObj True [])] []
     = \<lparr>status = Finished, entityOut = Some [(''pills'', JObj True [])],
        uiOut = \<lparr>isLoading = True, toastLog = [], errorLog = 0\<rparr>\<rparr>"
    by (simp add: submit_eval)
  show ?thesis by (rule conjI [OF c conjI [OF r conjI [OF s1 conjI [OF v s2]]]])
qed

section \<open>Merging the upload results\<close>














section \<open>List pruning and the success handler, evaluated\<close>

lemma keepEntry_scalar: "\<not> keepEntry n (k, JStr s)"
  by (simp add: keepEntry_def split: option.splits)

lemma timerCallback_throws:
  "onSubmitSuccess entity = Throws \<Longrightarrow> timerCallback onSubmitSuccess entity u = (True, u)"
  by (simp add: timerCallback_def)

text \<open>
  C2: the code at a \<open>TextList\<close> with two rows and a list size of 2. The pass over the
  form values stores the rows as the strings they are; the pruning then keeps only
  entries that are objects holding the keys \<open>0\<close> and \<open>1\<close>, whatever the type of the
  field, and every row is dropped: the accepted entity holds an empty object.
\<close>

theorem pruning_drops_text_rows:
  "mergeEntity [plainEntry ''tags'' ''Tags'' TextList False None] [2] []
       [(''tags'', mkArray [JStr ''a'', JStr ''b''])]
       [textControl ''tags_listfieldsingleidx_0'' ''a'',
        textControl ''tags_listfieldsingleidx_1'' ''b'']
     = Inr [(''tags'', JObj True [(''0'', JStr ''a''), (''1'', JStr ''b'')])] \<and>
   handleSubmit [plainEntry ''tags'' ''Tags'' TextList False None] None [2] False [] idleUi
       [(''tags'', mkArray [JStr ''a'', JStr ''b''])]
       [textControl ''tags_listfieldsingleidx_0'' ''a'',
        textControl ''tags_listfieldsingleidx_1'' ''b'']
     = \<lparr>status = Finished, entityOut = Some [(''tags'', JObj False [])],
        uiOut = \<lparr>isLoading = True, toastLog = [], errorLog = 0\<rparr>\<rparr>"
  by (simp add: submit_eval showNat.simps digitChar_def char_of_def bit_iff_odd)

text \<open>
  C8: the code at a success handler that throws. The submission passes validation and
  arms the timer inside the \<open>try\<close> block, which is left at once; when the timer fires,
  the exception leaves the callback, outside of any \<open>catch\<close>: nothing is logged by the
  handler and the loading indicator stays on. No message is shown.
\<close>

theorem success_handler_exception_escapes:
  "handleSubmit [plainEntry ''name'' ''Name'' Text True None] (Some throwingHandler) [0] False []
       idleUi [] [textControl ''name'' ''Ann'']
     = \<lparr>status = Scheduled, entityOut = Some [(''name'', JStr ''Ann'')],
        uiOut = \<lparr>isLoading = True, toastLog = [], errorLog = 0\<rparr>\<rparr> \<and>
   afterTimer throwingHandler
       (handleSubmit [plainEntry ''name'' ''Name'' Text True None] (Some throwingHandler) [0] False []
          idleUi [] [textControl ''name'' ''Ann''])
     = (True, \<lparr>isLoading = True, toastLog = [], errorLog = 0\<rparr>)"
  by (simp add: submit_eval afterTimer_def timerCallback_def setTimeout_def throwingHandler_def)

end
